theory Spec2Isabelle
  imports Complex_Main "HOL-Library.Multiset" "HOL-Library.Sublist"
begin

section \<open>Errors and the catch blocks\<close>

text \<open>
  A thrown value is either an \<open>ApiError\<close> (message, status code) of
  \<open>models/api-response\<close>, or any other exception (a \<open>BSONError\<close> of the
  ObjectId constructor, an error of the MongoDB driver, the \<open>Error\<close> of
  \<open>RedisClient.getClient\<close>), kept by its name.
\<close>

datatype error = ApiError string nat | Thrown string

text \<open>\<open>catch (error) { if (error instanceof ApiError) throw error; throw new ApiError(msg, 500) }\<close>\<close>

definition rethrowApi :: "string \<Rightarrow> error + 'a \<Rightarrow> error + 'a" where
  "rethrowApi msg r =
     (case r of
        Inl (ApiError m c) \<Rightarrow> Inl (ApiError m c)
      | Inl (Thrown x) \<Rightarrow> Inl (ApiError msg 500)
      | Inr v \<Rightarrow> Inr v)"

text \<open>\<open>catch (error) { throw new ApiError(msg, 500) }\<close>\<close>

definition wrapAll :: "string \<Rightarrow> error + 'a \<Rightarrow> error + 'a" where
  "wrapAll msg r = (case r of Inl e \<Rightarrow> Inl (ApiError msg 500) | Inr v \<Rightarrow> Inr v)"

section \<open>Object identifiers\<close>

text \<open>
  An ObjectId is held by its \<open>toHexString()\<close>: 24 lower-case hexadecimal digits.
  \<open>ObjectId.isValid\<close> on a string accepts exactly the strings of 24 hexadecimal digits,
  of either case; the constructor throws on every other string and reads upper-case and
  lower-case digits alike.
\<close>

type_synonym objectid = string

definition isHexDigit :: "char \<Rightarrow> bool" where
  "isHexDigit c = (c \<in> set ''0123456789abcdefABCDEF'')"

definition toLowerHex :: "char \<Rightarrow> char" where
  "toLowerHex c =
     (if c = CHR ''A'' then CHR ''a'' else if c = CHR ''B'' then CHR ''b''
      else if c = CHR ''C'' then CHR ''c'' else if c = CHR ''D'' then CHR ''d''
      else if c = CHR ''E'' then CHR ''e'' else if c = CHR ''F'' then CHR ''f'' else c)"

definition isValid :: "string \<Rightarrow> bool" where
  "isValid s = (length s = 24 \<and> list_all isHexDigit s)"

definition newObjectId :: "string \<Rightarrow> error + objectid" where
  "newObjectId s = (if isValid s then Inr (map toLowerHex s) else Inl (Thrown ''BSONError''))"

section \<open>The expense documents\<close>

record Expense =
  oid :: objectid
  userId :: objectid
  title :: string
  description :: "string option"
  amount :: real
  category :: string
  createdAt :: int
  updatedAt :: int

record CreateExpenseDto =
  c_title :: string
  c_description :: "string option"
  c_amount :: real
  c_category :: string

record UpdateExpenseDto =
  u_title :: "string option"
  u_description :: "string option"
  u_amount :: "real option"
  u_category :: "string option"

text \<open>The document handed to \<open>insertOne\<close>: an expense that has no \<open>_id\<close> yet.\<close>

record ExpenseDoc =
  d_userId :: objectid
  d_title :: string
  d_description :: "string option"
  d_amount :: real
  d_category :: string
  d_createdAt :: int
  d_updatedAt :: int

definition withId :: "objectid \<Rightarrow> ExpenseDoc \<Rightarrow> Expense" where
  "withId i d =
     \<lparr>oid = i, userId = d_userId d, title = d_title d, description = d_description d,
      amount = d_amount d, category = d_category d, createdAt = d_createdAt d,
      updatedAt = d_updatedAt d\<rparr>"

section \<open>The expenses collection\<close>

text \<open>
  The collection of the MongoDB driver, in memory: the documents in their natural order,
  and whether the server answers. Every operation of an unreachable store throws.
  Amounts are doubles, held by their real value, and timestamps are milliseconds since
  the epoch.
\<close>

record store =
  docs :: "Expense list"
  online :: bool

definition unreachable :: error where
  "unreachable = Thrown ''MongoNetworkError''"

fun replaceFirst :: "('a \<Rightarrow> bool) \<Rightarrow> ('a \<Rightarrow> 'a) \<Rightarrow> 'a list \<Rightarrow> 'a list" where
  "replaceFirst P f [] = []"
| "replaceFirst P f (x # xs) = (if P x then f x # xs else x # replaceFirst P f xs)"

fun removeFirst :: "('a \<Rightarrow> bool) \<Rightarrow> 'a list \<Rightarrow> 'a list" where
  "removeFirst P [] = []"
| "removeFirst P (x # xs) = (if P x then xs else x # removeFirst P xs)"

definition mongo_findOne :: "(Expense \<Rightarrow> bool) \<Rightarrow> store \<Rightarrow> error + Expense option" where
  "mongo_findOne P st = (if \<not> online st then Inl unreachable else Inr (find P (docs st)))"

text \<open>\<open>insertOne\<close>: the driver gives the document the identifier \<open>newId\<close> it generated;
  the unique index on \<open>_id\<close> rejects an identifier that is already there.\<close>

definition mongo_insertOne ::
  "objectid \<Rightarrow> ExpenseDoc \<Rightarrow> store \<Rightarrow> (error + objectid option) \<times> store" where
  "mongo_insertOne newId d st =
     (if \<not> online st then (Inl unreachable, st)
      else if newId \<in> set (map oid (docs st)) then (Inl (Thrown ''MongoServerError E11000''), st)
      else (Inr (Some newId), st\<lparr>docs := docs st @ [withId newId d]\<rparr>))"

text \<open>\<open>findOneAndUpdate(filter, {$set: ...}, {returnDocument: 'after'})\<close>\<close>

definition mongo_findOneAndUpdate ::
  "(Expense \<Rightarrow> bool) \<Rightarrow> (Expense \<Rightarrow> Expense) \<Rightarrow> store \<Rightarrow> (error + Expense option) \<times> store" where
  "mongo_findOneAndUpdate P f st =
     (if \<not> online st then (Inl unreachable, st)
      else (case find P (docs st) of
              None \<Rightarrow> (Inr None, st)
            | Some e \<Rightarrow> (Inr (Some (f e)), st\<lparr>docs := replaceFirst P f (docs st)\<rparr>)))"

text \<open>\<open>deleteOne(filter)\<close>, returning \<open>deletedCount\<close>\<close>

definition mongo_deleteOne :: "(Expense \<Rightarrow> bool) \<Rightarrow> store \<Rightarrow> (error + nat) \<times> store" where
  "mongo_deleteOne P st =
     (if \<not> online st then (Inl unreachable, st)
      else (case find P (docs st) of
              None \<Rightarrow> (Inr 0, st)
            | Some e \<Rightarrow> (Inr 1, st\<lparr>docs := removeFirst P (docs st)\<rparr>)))"

section \<open>ExpenseRepository: update and delete\<close>

text \<open>\<open>{ ...updates, updatedAt: new Date() }\<close> under \<open>$set\<close>: the fields present in
  \<open>updates\<close> are replaced, \<open>updatedAt\<close> always is.\<close>

definition applySet :: "UpdateExpenseDto \<Rightarrow> int \<Rightarrow> Expense \<Rightarrow> Expense" where
  "applySet u now e =
     e\<lparr>title := (case u_title u of None \<Rightarrow> title e | Some t \<Rightarrow> t),
       description := (case u_description u of None \<Rightarrow> description e | Some d \<Rightarrow> Some d),
       amount := (case u_amount u of None \<Rightarrow> amount e | Some a \<Rightarrow> a),
       category := (case u_category u of None \<Rightarrow> category e | Some c \<Rightarrow> c),
       updatedAt := now\<rparr>"

text \<open>The filter \<open>{ _id: new ObjectId(id), userId: new ObjectId(userId) }\<close>\<close>

definition byIdAndUserId :: "objectid \<Rightarrow> objectid \<Rightarrow> Expense \<Rightarrow> bool" where
  "byIdAndUserId i u e = (oid e = i \<and> userId e = u)"

definition updateByIdAndUserId ::
  "int \<Rightarrow> string \<Rightarrow> string \<Rightarrow> UpdateExpenseDto \<Rightarrow> store \<Rightarrow> (error + Expense option) \<times> store" where
  "updateByIdAndUserId now ident user updates st =
     (if \<not> isValid ident \<or> \<not> isValid user then (Inr None, st)
      else (case newObjectId ident of
              Inl x \<Rightarrow> (Inl (ApiError ''Failed to update expense'' 500), st)
            | Inr i \<Rightarrow>
               (case newObjectId user of
                  Inl x \<Rightarrow> (Inl (ApiError ''Failed to update expense'' 500), st)
                | Inr u \<Rightarrow>
                   (case mongo_findOneAndUpdate (byIdAndUserId i u) (applySet updates now) st of
                      (r, st') \<Rightarrow> (wrapAll ''Failed to update expense'' r, st')))))"

definition deleteByIdAndUserId :: "string \<Rightarrow> string \<Rightarrow> store \<Rightarrow> (error + bool) \<times> store" where
  "deleteByIdAndUserId ident user st =
     (if \<not> isValid ident \<or> \<not> isValid user then (Inr False, st)
      else (case newObjectId ident of
              Inl x \<Rightarrow> (Inl (ApiError ''Failed to delete expense'' 500), st)
            | Inr i \<Rightarrow>
               (case newObjectId user of
                  Inl x \<Rightarrow> (Inl (ApiError ''Failed to delete expense'' 500), st)
                | Inr u \<Rightarrow>
                   (case mongo_deleteOne (byIdAndUserId i u) st of
                      (Inl x, st') \<Rightarrow> (Inl (ApiError ''Failed to delete expense'' 500), st')
                    | (Inr n, st') \<Rightarrow> (if n = 1 then (Inr True, st') else (Inr False, st'))))))"

section \<open>ExpenseRepository: create\<close>

text \<open>
  \<open>create\<close> talks to the collection through \<open>insertOne\<close> and, in \<open>findById\<close>, through
  \<open>findOne\<close>. The two calls are taken as they come from \<open>getCollection()\<close>, so that every
  answer the driver can give (an exception, a result without \<open>insertedId\<close>, a read-back
  that finds nothing) is an input of the model.
\<close>

record 's collection =
  insertOne :: "ExpenseDoc \<Rightarrow> 's \<Rightarrow> (error + objectid option) \<times> 's"
  findOne :: "(Expense \<Rightarrow> bool) \<Rightarrow> 's \<Rightarrow> error + Expense option"

definition memoryCollection :: "objectid \<Rightarrow> store collection" where
  "memoryCollection newId = \<lparr>insertOne = mongo_insertOne newId, findOne = mongo_findOne\<rparr>"

definition findById :: "'s collection \<Rightarrow> string \<Rightarrow> 's \<Rightarrow> error + Expense option" where
  "findById coll ident st =
     (if \<not> isValid ident then Inr None
      else wrapAll ''Failed to find expense''
        (case newObjectId ident of
           Inl x \<Rightarrow> Inl x
         | Inr i \<Rightarrow> findOne coll (\<lambda>e. oid e = i) st))"

text \<open>\<open>{ ...expenseData, userId: new ObjectId(userId), createdAt: now, updatedAt: now }\<close>\<close>

definition expenseDocOf :: "objectid \<Rightarrow> int \<Rightarrow> CreateExpenseDto \<Rightarrow> ExpenseDoc" where
  "expenseDocOf u now expenseData =
     \<lparr>d_userId = u, d_title = c_title expenseData, d_description = c_description expenseData,
      d_amount = c_amount expenseData, d_category = c_category expenseData,
      d_createdAt = now, d_updatedAt = now\<rparr>"

definition create ::
  "'s collection \<Rightarrow> int \<Rightarrow> string \<Rightarrow> CreateExpenseDto \<Rightarrow> 's \<Rightarrow> (error + Expense) \<times> 's" where
  "create coll now user expenseData st =
     (if \<not> isValid user then (rethrowApi ''Failed to create expense'' (Inl (ApiError ''Invalid user ID'' 400)), st)
      else (case newObjectId user of
              Inl x \<Rightarrow> (rethrowApi ''Failed to create expense'' (Inl x), st)
            | Inr u \<Rightarrow>
               (let expenseDoc = expenseDocOf u now expenseData
                in (case insertOne coll expenseDoc st of
                      (Inl x, st') \<Rightarrow> (rethrowApi ''Failed to create expense'' (Inl x), st')
                    | (Inr None, st') \<Rightarrow>
                        (rethrowApi ''Failed to create expense'' (Inl (ApiError ''Failed to create expense'' 500)), st')
                    | (Inr (Some insertedId), st') \<Rightarrow>
                        (case findById coll insertedId st' of
                           Inl x \<Rightarrow> (rethrowApi ''Failed to create expense'' (Inl x), st')
                         | Inr None \<Rightarrow>
                             (rethrowApi ''Failed to create expense''
                                (Inl (ApiError ''Failed to retrieve created expense'' 500)), st')
                         | Inr (Some createdExpense) \<Rightarrow> (Inr createdExpense, st'))))))"

section \<open>ExpenseRepository: findWithFilters\<close>

text \<open>A JavaScript number that is an integer or \<open>NaN\<close> (what \<open>parseInt\<close> and the
  arithmetic on its results give).\<close>

datatype jsnum = NaN | Num int

record ExpenseFilter =
  f_userId :: objectid
  f_startDate :: "int option"
  f_endDate :: "int option"
  f_category :: "string option"
  f_limit :: "jsnum option"
  f_offset :: "jsnum option"

text \<open>The query document: \<open>userId\<close>, and the optional \<open>createdAt.$gte\<close>,
  \<open>createdAt.$lte\<close> and \<open>category\<close>.\<close>

record query =
  q_userId :: objectid
  q_gte :: "int option"
  q_lte :: "int option"
  q_cat :: "string option"

definition matches :: "query \<Rightarrow> Expense \<Rightarrow> bool" where
  "matches q e =
     (userId e = q_userId q
      \<and> (case q_gte q of None \<Rightarrow> True | Some s \<Rightarrow> s \<le> createdAt e)
      \<and> (case q_lte q of None \<Rightarrow> True | Some t \<Rightarrow> createdAt e \<le> t)
      \<and> (case q_cat q of None \<Rightarrow> True | Some c \<Rightarrow> category e = c))"

text \<open>\<open>if (filters.category) query.category = filters.category\<close>: the empty string is falsy.\<close>

definition truthyString :: "string option \<Rightarrow> string option" where
  "truthyString s = (case s of None \<Rightarrow> None | Some x \<Rightarrow> if x = [] then None else Some x)"

definition buildQuery :: "ExpenseFilter \<Rightarrow> query" where
  "buildQuery filters =
     \<lparr>q_userId = f_userId filters, q_gte = f_startDate filters, q_lte = f_endDate filters,
      q_cat = truthyString (f_category filters)\<rparr>"

text \<open>\<open>filters.limit || 20\<close>, \<open>filters.offset || 0\<close>: undefined, \<open>NaN\<close> and 0 are falsy.\<close>

definition orDefault :: "jsnum option \<Rightarrow> int \<Rightarrow> int" where
  "orDefault x d = (case x of Some (Num n) \<Rightarrow> if n = 0 then d else n | _ \<Rightarrow> d)"

text \<open>
  \<open>.sort({ createdAt: -1 })\<close>: newest first. The sort has no second key. Documents with
  equal \<open>createdAt\<close> are left by MongoDB in an order it does not specify; the model leaves
  them in the natural order of the collection.
\<close>

definition sortNewestFirst :: "Expense list \<Rightarrow> Expense list" where
  "sortNewestFirst xs = sort_key (\<lambda>e. - createdAt e) xs"

text \<open>
  \<open>find(query).sort(...).skip(offset).limit(limit).toArray()\<close>. The server rejects a
  negative skip; a negative limit is taken by its absolute value, and limit 0 is no limit.
\<close>

definition mongo_findPage :: "query \<Rightarrow> int \<Rightarrow> int \<Rightarrow> store \<Rightarrow> error + Expense list" where
  "mongo_findPage q skip lmt st =
     (if \<not> online st then Inl unreachable
      else if skip < 0 then Inl (Thrown ''MongoServerError BadValue'')
      else (let sorted_docs = drop (nat skip) (sortNewestFirst (filter (matches q) (docs st)))
            in Inr (if lmt = 0 then sorted_docs else take (nat \<bar>lmt\<bar>) sorted_docs)))"

definition mongo_countDocuments :: "query \<Rightarrow> store \<Rightarrow> error + nat" where
  "mongo_countDocuments q st =
     (if \<not> online st then Inl unreachable else Inr (length (filter (matches q) (docs st))))"

definition findWithFilters :: "ExpenseFilter \<Rightarrow> store \<Rightarrow> error + (Expense list \<times> nat)" where
  "findWithFilters filters st =
     (let q = buildQuery filters;
          lmt = orDefault (f_limit filters) 20;
          offset = orDefault (f_offset filters) 0
      in wrapAll ''Failed to fetch expenses''
           (case mongo_findPage q offset lmt st of
              Inl x \<Rightarrow> Inl x
            | Inr expenses \<Rightarrow>
               (case mongo_countDocuments q st of
                  Inl x \<Rightarrow> Inl x
                | Inr n_total \<Rightarrow> Inr (expenses, n_total))))"

section \<open>Double-precision numbers\<close>

text \<open>
  The amounts are JavaScript numbers, stored and added by the database as IEEE 754
  doubles. A finite double is held by its real value. \<open>roundDouble x\<close> is the double
  nearest to the real \<open>x\<close>, ties to the even significand: the absolute value is scaled
  to a significand between \<open>2^52\<close> and \<open>2^53\<close>, the significand is rounded to an
  integer, and the result is scaled back. The sum of two doubles is the rounding of
  their exact sum, and \<open>$sum\<close> adds the values one after the other, from 0, in the order
  of the documents. The exponent is not bounded in the model: it has no overflow to
  \<open>Infinity\<close> and no subnormal numbers. The scaling takes at most 2200 steps, more than
  any magnitude of a double needs.
\<close>

definition roundEven :: "real \<Rightarrow> int" where
  "roundEven m =
     (let f = \<lfloor>m\<rfloor>; d = m - of_int f
      in if d < 1 / 2 then f else if 1 / 2 < d then f + 1 else if even f then f else f + 1)"

fun scaleMantissa :: "nat \<Rightarrow> real \<Rightarrow> int \<Rightarrow> real \<times> int" where
  "scaleMantissa 0 m e = (m, e)"
| "scaleMantissa (Suc n) m e =
     (if m < 4503599627370496 then scaleMantissa n (m * 2) (e - 1)
      else if 9007199254740992 \<le> m then scaleMantissa n (m / 2) (e + 1)
      else (m, e))"

definition pow2 :: "int \<Rightarrow> real" where
  "pow2 e = (if 0 \<le> e then 2 ^ nat e else 1 / 2 ^ nat (- e))"

definition roundDouble :: "real \<Rightarrow> real" where
  "roundDouble x =
     (if x = 0 then 0
      else (case scaleMantissa 2200 \<bar>x\<bar> 0 of
              (m, e) \<Rightarrow> sgn x * of_int (roundEven m) * pow2 e))"

definition fadd :: "real \<Rightarrow> real \<Rightarrow> real" where
  "fadd x y = roundDouble (x + y)"

definition dsum :: "real list \<Rightarrow> real" where
  "dsum xs = foldl fadd 0 xs"

section \<open>ExpenseRepository: getSummary\<close>

record CategoryEntry =
  b_category :: string
  b_amount :: real
  b_count :: nat

record ExpenseSummary =
  totalAmount :: real
  totalCount :: nat
  categoryBreakdown :: "CategoryEntry list"

text \<open>The match stage: \<open>userId\<close> and the optional bounds on \<open>createdAt\<close>; no category.\<close>

definition matchStage :: "objectid \<Rightarrow> int option \<Rightarrow> int option \<Rightarrow> query" where
  "matchStage u startDate endDate = \<lparr>q_userId = u, q_gte = startDate, q_lte = endDate, q_cat = None\<rparr>"

text \<open>Stage 2, \<open>$group\<close> with \<open>_id: null\<close>: one document for a non-empty input, none for an
  empty one. It holds the total amount (the \<open>$sum\<close> of the amounts, in doubles), the total
  count, and the pushed \<open>{category, amount}\<close> pairs.\<close>

definition groupAll :: "Expense list \<Rightarrow> (real \<times> nat \<times> (string \<times> real) list) list" where
  "groupAll xs =
     (if xs = [] then []
      else [(dsum (map amount xs), length xs, map (\<lambda>e. (category e, amount e)) xs)])"

text \<open>Stage 3, \<open>$unwind: '$categories'\<close>: one document for each pushed pair.\<close>

definition unwindCategories ::
  "(real \<times> nat \<times> (string \<times> real) list) list \<Rightarrow> ((real \<times> nat) \<times> (string \<times> real)) list" where
  "unwindCategories gs = concat (map (\<lambda>(ta, tc, cs). map (\<lambda>c. ((ta, tc), c)) cs) gs)"

text \<open>Stage 4, \<open>$group\<close> by \<open>{totalAmount, totalCount}\<close>, pushing the pairs again: one
  document for each distinct key, in the order of first appearance.\<close>

definition regroup ::
  "((real \<times> nat) \<times> (string \<times> real)) list \<Rightarrow> ((real \<times> nat) \<times> (string \<times> real) list) list" where
  "regroup us =
     map (\<lambda>k. (k, map snd (filter (\<lambda>u. fst u = k) us))) (remdups (map fst us))"

text \<open>Stage 5, \<open>$project\<close>: for each category of \<open>$setUnion\<close> (the distinct categories), the
  \<open>$sum\<close> (in doubles) of the amounts and the number of the pairs of that category.\<close>

definition breakdownOf :: "(string \<times> real) list \<Rightarrow> CategoryEntry list" where
  "breakdownOf items =
     map (\<lambda>c. \<lparr>b_category = c,
               b_amount = dsum (map snd (filter (\<lambda>i. fst i = c) items)),
               b_count = length (filter (\<lambda>i. fst i = c) items)\<rparr>)
         (remdups (map fst items))"

definition project :: "((real \<times> nat) \<times> (string \<times> real) list) list \<Rightarrow> ExpenseSummary list" where
  "project gs =
     map (\<lambda>((ta, tc), items).
            \<lparr>totalAmount = ta, totalCount = tc, categoryBreakdown = breakdownOf items\<rparr>) gs"

definition mongo_aggregate :: "query \<Rightarrow> store \<Rightarrow> error + ExpenseSummary list" where
  "mongo_aggregate m st =
     (if \<not> online st then Inl unreachable
      else Inr (project (regroup (unwindCategories (groupAll (filter (matches m) (docs st)))))))"

definition emptySummary :: ExpenseSummary where
  "emptySummary = \<lparr>totalAmount = 0, totalCount = 0, categoryBreakdown = []\<rparr>"

definition getSummary :: "string \<Rightarrow> int option \<Rightarrow> int option \<Rightarrow> store \<Rightarrow> error + ExpenseSummary" where
  "getSummary user startDate endDate st =
     wrapAll ''Failed to get expense summary''
       (if \<not> isValid user then Inl (ApiError ''Invalid user ID'' 400)
        else (case newObjectId user of
                Inl x \<Rightarrow> Inl x
              | Inr u \<Rightarrow>
                 (case mongo_aggregate (matchStage u startDate endDate) st of
                    Inl x \<Rightarrow> Inl x
                  | Inr result \<Rightarrow>
                     (case result of [] \<Rightarrow> Inr emptySummary | r # rest \<Rightarrow> Inr r))))"

section \<open>JavaScript values and JSON\<close>

text \<open>
  The values the service returns and caches. \<open>JDate\<close> is a valid \<open>Date\<close>, by its
  milliseconds since the epoch; strings are held as their UTF-8 bytes.
\<close>

datatype jsval =
    JUndefined | JNull | JBool bool | JNaN | JNum real | JStr string | JDate int
  | JArr "jsval list" | JObj "(string \<times> jsval) list"

text \<open>\<open>if (value)\<close>\<close>

fun truthy :: "jsval \<Rightarrow> bool" where
  "truthy JUndefined = False"
| "truthy JNull = False"
| "truthy (JBool b) = b"
| "truthy JNaN = False"
| "truthy (JNum x) = (x \<noteq> 0)"
| "truthy (JStr s) = (s \<noteq> [])"
| "truthy (JDate t) = True"
| "truthy (JArr xs) = True"
| "truthy (JObj kvs) = True"

subsection \<open>Decimal digits and \<open>Date.prototype.toISOString\<close>\<close>

definition digitChar :: "nat \<Rightarrow> char" where
  "digitChar d = ''0123456789'' ! (d mod 10)"

fun showNat :: "nat \<Rightarrow> string" where
  "showNat n = (if n < 10 then [digitChar n] else showNat (n div 10) @ [digitChar (n mod 10)])"

declare showNat.simps [simp del]

definition showInt :: "int \<Rightarrow> string" where
  "showInt i = (if i < 0 then CHR ''-'' # showNat (nat (- i)) else showNat (nat i))"

definition padZero :: "nat \<Rightarrow> int \<Rightarrow> string" where
  "padZero width i = replicate (width - length (showNat (nat i))) (CHR ''0'') @ showNat (nat i)"

definition msPerDay :: int where
  "msPerDay = 86400000"

text \<open>The proleptic Gregorian date (year, month 1 to 12, day) of a day number counted from
  1970-01-01, and back.\<close>

definition civilFromDays :: "int \<Rightarrow> int \<times> int \<times> int" where
  "civilFromDays z0 =
     (let z = z0 + 719468;
          era = z div 146097;
          doe = z mod 146097;
          yoe = (doe - doe div 1460 + doe div 36524 - doe div 146096) div 365;
          doy = doe - (365 * yoe + yoe div 4 - yoe div 100);
          mp = (5 * doy + 2) div 153;
          d = doy - (153 * mp + 2) div 5 + 1;
          m = (if mp < 10 then mp + 3 else mp - 9);
          y = yoe + era * 400
      in (if m \<le> 2 then y + 1 else y, m, d))"

definition daysFromCivil :: "int \<Rightarrow> int \<Rightarrow> int \<Rightarrow> int" where
  "daysFromCivil y0 m d =
     (let y = (if m \<le> 2 then y0 - 1 else y0);
          era = y div 400;
          yoe = y mod 400;
          doy = (153 * (if 2 < m then m - 3 else m + 9) + 2) div 5 + d - 1;
          doe = yoe * 365 + yoe div 4 - yoe div 100 + doy
      in era * 146097 + doe - 719468)"

definition toISOString :: "int \<Rightarrow> string" where
  "toISOString t =
     (let ms = t mod msPerDay;
          ymd = civilFromDays (t div msPerDay);
          y = fst ymd; m = fst (snd ymd); d = snd (snd ymd);
          year = (if 0 \<le> y \<and> y \<le> 9999 then padZero 4 y
                  else (if y < 0 then CHR ''-'' else CHR ''+'') # padZero 6 \<bar>y\<bar>)
      in year @ ''-'' @ padZero 2 m @ ''-'' @ padZero 2 d @ ''T''
         @ padZero 2 (ms div 3600000) @ '':'' @ padZero 2 (ms div 60000 mod 60) @ '':''
         @ padZero 2 (ms div 1000 mod 60) @ ''.'' @ padZero 3 (ms mod 1000) @ ''Z'')"

subsection \<open>\<open>JSON.parse(JSON.stringify(value))\<close>\<close>

text \<open>
  What a value becomes on its way through JSON: a date becomes its ISO string, \<open>NaN\<close>
  becomes null, a property whose value is undefined is dropped, an undefined array
  element becomes null. The document stands for its text: \<open>JSON.stringify\<close> of two values
  gives the same bytes exactly when the two have the same document.
\<close>

fun jsonify :: "jsval \<Rightarrow> jsval" where
  "jsonify (JDate t) = JStr (toISOString t)"
| "jsonify JNaN = JNull"
| "jsonify JUndefined = JNull"
| "jsonify (JArr xs) = JArr (map jsonify xs)"
| "jsonify (JObj kvs) =
     JObj (map (\<lambda>kv. (fst kv, jsonify (snd kv))) (filter (\<lambda>kv. snd kv \<noteq> JUndefined) kvs))"
| "jsonify JNull = JNull"
| "jsonify (JBool b) = JBool b"
| "jsonify (JNum x) = JNum x"
| "jsonify (JStr s) = JStr s"

subsection \<open>\<open>parseInt\<close> and the arithmetic on its results\<close>

definition isWhiteSpace :: "char \<Rightarrow> bool" where
  "isWhiteSpace c = (c \<in> set [CHR '' '', CHR 0x09, CHR 0x0A, CHR 0x0B, CHR 0x0C, CHR 0x0D])"

definition digitValue :: "char \<Rightarrow> nat option" where
  "digitValue c =
     (let n = (of_char c :: nat)
      in if 48 \<le> n \<and> n \<le> 57 then Some (n - 48)
         else if 97 \<le> n \<and> n \<le> 122 then Some (n - 87)
         else if 65 \<le> n \<and> n \<le> 90 then Some (n - 55)
         else None)"

definition isDigitIn :: "nat \<Rightarrow> char \<Rightarrow> bool" where
  "isDigitIn radix c = (case digitValue c of None \<Rightarrow> False | Some v \<Rightarrow> v < radix)"

definition digitsValue :: "nat \<Rightarrow> string \<Rightarrow> int" where
  "digitsValue radix ds =
     foldl (\<lambda>acc c. acc * int radix + int (case digitValue c of None \<Rightarrow> 0 | Some v \<Rightarrow> v)) 0 ds"

text \<open>An integer as a number: the double nearest to it (itself up to \<open>2^53\<close>). A value
  beyond the range of the doubles, which gives \<open>Infinity\<close>, is not modelled.\<close>

definition roundInt :: "int \<Rightarrow> int" where
  "roundInt n = \<lfloor>roundDouble (of_int n)\<rfloor>"

text \<open>\<open>parseInt(s)\<close> with no radix: leading white space (the ASCII one), a sign, \<open>0x\<close>
  for base 16, then the longest run of digits; there is no integer when there is no
  digit. \<open>parseInteger\<close> is the mathematical integer the digits denote, and \<open>parseInt\<close>
  is its number value, or \<open>NaN\<close>.\<close>

definition parseInteger :: "string \<Rightarrow> int option" where
  "parseInteger s =
     (let s1 = dropWhile isWhiteSpace s;
          negative = (case s1 of c # r \<Rightarrow> c = CHR ''-'' | [] \<Rightarrow> False);
          s2 = (case s1 of c # r \<Rightarrow> if c = CHR ''-'' \<or> c = CHR ''+'' then r else s1 | [] \<Rightarrow> s1);
          hex = (take 2 s2 = ''0x'' \<or> take 2 s2 = ''0X'');
          radix = (if hex then 16 else 10);
          s3 = (if hex then drop 2 s2 else s2);
          ds = takeWhile (isDigitIn radix) s3
      in if ds = [] then None
         else Some (if negative then - digitsValue radix ds else digitsValue radix ds))"

definition parseInt :: "string \<Rightarrow> jsnum" where
  "parseInt s = (case parseInteger s of None \<Rightarrow> NaN | Some n \<Rightarrow> Num (roundInt n))"

text \<open>Subtraction and multiplication of numbers: the exact result, rounded.\<close>

definition jsSub :: "jsnum \<Rightarrow> jsnum \<Rightarrow> jsnum" where
  "jsSub a b = (case (a, b) of (Num x, Num y) \<Rightarrow> Num (roundInt (x - y)) | _ \<Rightarrow> NaN)"

definition jsMul :: "jsnum \<Rightarrow> jsnum \<Rightarrow> jsnum" where
  "jsMul a b = (case (a, b) of (Num x, Num y) \<Rightarrow> Num (roundInt (x * y)) | _ \<Rightarrow> NaN)"

definition numJs :: "jsnum \<Rightarrow> jsval" where
  "numJs n = (case n of NaN \<Rightarrow> JNaN | Num i \<Rightarrow> JNum (real_of_int i))"

text \<open>\<open>value || fallback\<close> on an optional string: undefined and the empty string are falsy.\<close>

definition orElse :: "string option \<Rightarrow> string \<Rightarrow> string" where
  "orElse s d = (case s of None \<Rightarrow> d | Some x \<Rightarrow> if x = [] then d else x)"

section \<open>DateHelpers\<close>

text \<open>
  What the helpers take from their environment: the clock (\<open>new Date()\<close>), the time zone
  of the process, the date parser of the engine (\<open>new Date(string).getTime()\<close>, \<open>None\<close>
  for \<open>NaN\<close>), and the identifier the driver will generate for the next insert. The time
  zone is given by its two offsets in milliseconds: \<open>rt_offsetAt t\<close> is the offset of
  local time from UTC at the instant \<open>t\<close>, and \<open>rt_offsetOfLocal l\<close> is the offset by
  which the local time value \<open>l\<close> is read as an instant (an offset that changes with
  daylight saving makes the two differ around a change).
\<close>

record runtime =
  rt_now :: int
  rt_offsetAt :: "int \<Rightarrow> int"
  rt_offsetOfLocal :: "int \<Rightarrow> int"
  rt_parse :: "string \<Rightarrow> int option"
  rt_newId :: objectid

text \<open>\<open>LocalTime(t)\<close> and \<open>UTC(t)\<close> of the language specification.\<close>

definition localTime :: "runtime \<Rightarrow> int \<Rightarrow> int" where
  "localTime rt t = t + rt_offsetAt rt t"

definition utcTime :: "runtime \<Rightarrow> int \<Rightarrow> int" where
  "utcTime rt l = l - rt_offsetOfLocal rt l"

text \<open>\<open>setHours(0, 0, 0, 0)\<close> and \<open>setHours(23, 59, 59, 999)\<close>: the local day of the
  date with the new time of day, read back as an instant. (A result outside the range
  of \<open>Date\<close> is not modelled.)\<close>

definition startOfDay :: "runtime \<Rightarrow> int \<Rightarrow> int" where
  "startOfDay rt t = utcTime rt ((localTime rt t div msPerDay) * msPerDay)"

definition endOfDay :: "runtime \<Rightarrow> int \<Rightarrow> int" where
  "endOfDay rt t = utcTime rt ((localTime rt t div msPerDay) * msPerDay + (msPerDay - 1))"

text \<open>\<open>setDate(getDate() - k)\<close>: the local date \<open>k\<close> days earlier, at the same local time
  of day.\<close>

definition minusDays :: "runtime \<Rightarrow> int \<Rightarrow> int \<Rightarrow> int" where
  "minusDays rt k t = utcTime rt (localTime rt t - k * msPerDay)"

text \<open>\<open>setMonth(getMonth() - k)\<close>: the same day number in the month \<open>k\<close> months earlier,
  running over into the next month when that month is shorter.\<close>

definition minusMonths :: "runtime \<Rightarrow> int \<Rightarrow> int \<Rightarrow> int" where
  "minusMonths rt k t =
     (let local = localTime rt t;
          ymd = civilFromDays (local div msPerDay);
          y = fst ymd; m = fst (snd ymd); d = snd (snd ymd);
          months = y * 12 + (m - 1) - k
      in utcTime rt
           ((daysFromCivil (months div 12) (months mod 12 + 1) 1 + (d - 1)) * msPerDay
            + local mod msPerDay))"

definition getPastWeekRange :: "runtime \<Rightarrow> int \<times> int" where
  "getPastWeekRange rt =
     (startOfDay rt (minusDays rt 7 (rt_now rt)), endOfDay rt (rt_now rt))"

definition getPastMonthRange :: "runtime \<Rightarrow> int \<times> int" where
  "getPastMonthRange rt =
     (startOfDay rt (minusMonths rt 1 (rt_now rt)), endOfDay rt (rt_now rt))"

definition getPast3MonthsRange :: "runtime \<Rightarrow> int \<times> int" where
  "getPast3MonthsRange rt =
     (startOfDay rt (minusMonths rt 3 (rt_now rt)), endOfDay rt (rt_now rt))"

definition parseDate :: "runtime \<Rightarrow> string \<Rightarrow> int option" where
  "parseDate rt dateString = rt_parse rt dateString"

definition getCustomRange :: "runtime \<Rightarrow> string \<Rightarrow> string \<Rightarrow> (int \<times> int) option" where
  "getCustomRange rt startDateString endDateString =
     (case parseDate rt startDateString of
        None \<Rightarrow> None
      | Some startDate \<Rightarrow>
         (case parseDate rt endDateString of
            None \<Rightarrow> None
          | Some endDate \<Rightarrow>
             if endDate < startDate then None
             else Some (startOfDay rt startDate, endOfDay rt endDate)))"

definition getDateRange ::
  "runtime \<Rightarrow> string option \<Rightarrow> string option \<Rightarrow> string option \<Rightarrow> (int \<times> int) option" where
  "getDateRange rt period startDateString endDateString =
     (if period = Some ''week'' then Some (getPastWeekRange rt)
      else if period = Some ''month'' then Some (getPastMonthRange rt)
      else if period = Some ''3months'' then Some (getPast3MonthsRange rt)
      else if period = Some ''custom'' then
        (if orElse startDateString [] = [] \<or> orElse endDateString [] = [] then None
         else getCustomRange rt (orElse startDateString []) (orElse endDateString []))
      else None)"

section \<open>RedisClient\<close>

text \<open>
  A string held by Redis is the JSON text of a document, kept by the document
  \<open>JSON.parse\<close> reads from it, or a text that \<open>JSON.parse\<close> rejects. The cache is the
  list of its entries (key, value, time to live in seconds) and whether its operations
  answer: when they do not (\<open>getClient\<close> throws "Redis not connected", or the client
  command rejects) every operation throws. The expiry of entries is not modelled.
\<close>

datatype stored = JsonText jsval | PlainText string

record redis =
  available :: bool
  entries :: "(string \<times> stored \<times> nat option) list"

definition redisDown :: error where
  "redisDown = Thrown ''Redis not connected''"

text \<open>\<open>set(key, value, ttlSeconds)\<close>: \<open>setEx\<close> for a truthy time to live, \<open>set\<close> otherwise.\<close>

definition redis_set :: "string \<Rightarrow> stored \<Rightarrow> nat \<Rightarrow> redis \<Rightarrow> (error + unit) \<times> redis" where
  "redis_set key v ttlSeconds r =
     (if \<not> available r then (Inl redisDown, r)
      else (Inr (), r\<lparr>entries := (key, v, if ttlSeconds = 0 then None else Some ttlSeconds)
                                  # filter (\<lambda>e. fst e \<noteq> key) (entries r)\<rparr>))"

definition redis_get :: "string \<Rightarrow> redis \<Rightarrow> error + stored option" where
  "redis_get key r =
     (if \<not> available r then Inl redisDown
      else Inr (map_option (\<lambda>e. fst (snd e)) (find (\<lambda>e. fst e = key) (entries r))))"

text \<open>The glob patterns of \<open>KEYS\<close>: \<open>*\<close> matches any run of characters, \<open>?\<close> any one
  character, every other character itself (character classes and escapes do not occur
  in the patterns of this service and are not modelled).\<close>

fun globMatch :: "string \<Rightarrow> string \<Rightarrow> bool" where
  "globMatch [] s = (s = [])"
| "globMatch (p # ps) [] = (p = CHR ''*'' \<and> globMatch ps [])"
| "globMatch (p # ps) (c # cs) =
     (if p = CHR ''*'' then globMatch ps (c # cs) \<or> globMatch (p # ps) cs
      else if p = CHR ''?'' then globMatch ps cs
      else p = c \<and> globMatch ps cs)"

text \<open>\<open>deletePattern(pattern)\<close>: \<open>keys(pattern)\<close>, then \<open>del(keys)\<close> when there are any.\<close>

definition deletePattern :: "string \<Rightarrow> redis \<Rightarrow> (error + unit) \<times> redis" where
  "deletePattern pattern r =
     (if \<not> available r then (Inl redisDown, r)
      else (let keys = filter (globMatch pattern) (map fst (entries r))
            in if 0 < length keys
               then (Inr (), r\<lparr>entries := filter (\<lambda>e. fst e \<notin> set keys) (entries r)\<rparr>)
               else (Inr (), r)))"

definition setJson :: "string \<Rightarrow> jsval \<Rightarrow> nat \<Rightarrow> redis \<Rightarrow> (error + unit) \<times> redis" where
  "setJson key v ttlSeconds r = redis_set key (JsonText (jsonify v)) ttlSeconds r"

text \<open>\<open>getJson\<close>: null for a missing key or an empty string, the parsed document otherwise;
  a text that does not parse is logged and gives null.\<close>

definition getJson :: "string \<Rightarrow> redis \<Rightarrow> error + jsval" where
  "getJson key r =
     (case redis_get key r of
        Inl x \<Rightarrow> Inl x
      | Inr None \<Rightarrow> Inr JNull
      | Inr (Some (PlainText s)) \<Rightarrow> Inr JNull
      | Inr (Some (JsonText d)) \<Rightarrow> Inr d)"

subsection \<open>Cache keys\<close>

definition base64Alphabet :: string where
  "base64Alphabet = ''ABCDEFGHIJKLMNOPQRSTUVWXYZabcdefghijklmnopqrstuvwxyz0123456789+/''"

definition b64 :: "nat \<Rightarrow> char" where
  "b64 n = base64Alphabet ! (n mod 64)"

text \<open>\<open>Buffer.from(text).toString('base64')\<close> on the bytes of the text\<close>

fun base64bytes :: "nat list \<Rightarrow> string" where
  "base64bytes [] = []"
| "base64bytes [a] = [b64 (a div 4), b64 (a mod 4 * 16), CHR ''='', CHR ''='']"
| "base64bytes [a, b] =
     [b64 (a div 4), b64 (a mod 4 * 16 + b div 16), b64 (b mod 16 * 4), CHR ''='']"
| "base64bytes (a # b # c # rest) =
     [b64 (a div 4), b64 (a mod 4 * 16 + b div 16), b64 (b mod 16 * 4 + c div 64), b64 (c mod 64)]
     @ base64bytes rest"

definition base64 :: "string \<Rightarrow> string" where
  "base64 s = base64bytes (map of_char s)"

definition RedisClient_getExpensesCacheKey :: "string \<Rightarrow> string option \<Rightarrow> string" where
  "RedisClient_getExpensesCacheKey user filters =
     ''expenses:'' @ user
     @ (case filters of
          None \<Rightarrow> []
        | Some f \<Rightarrow> if f = [] then [] else '':'' @ base64 f)"

definition getExpenseSummaryCacheKey :: "string \<Rightarrow> string option \<Rightarrow> string" where
  "getExpenseSummaryCacheKey user period =
     ''expense_summary:'' @ user
     @ (case period of
          None \<Rightarrow> []
        | Some p \<Rightarrow> if p = [] then [] else '':'' @ p)"

text \<open>\<open>JSON.stringify\<close> of a string: quoted, with the quote, the backslash and the control
  characters escaped.\<close>

definition hexDigitChar :: "nat \<Rightarrow> char" where
  "hexDigitChar d = ''0123456789abcdef'' ! (d mod 16)"

definition jsonEscape :: "char \<Rightarrow> string" where
  "jsonEscape c =
     (let n = (of_char c :: nat)
      in if n = 34 then [CHR 0x5C, CHR 0x22]
         else if n = 92 then [CHR 0x5C, CHR 0x5C]
         else if n = 8 then [CHR 0x5C, CHR ''b'']
         else if n = 12 then [CHR 0x5C, CHR ''f'']
         else if n = 10 then [CHR 0x5C, CHR ''n'']
         else if n = 13 then [CHR 0x5C, CHR ''r'']
         else if n = 9 then [CHR 0x5C, CHR ''t'']
         else if n < 32 then [CHR 0x5C, CHR ''u'', CHR ''0'', CHR ''0'',
                              hexDigitChar (n div 16), hexDigitChar (n mod 16)]
         else [c])"

definition jsonQuote :: "string \<Rightarrow> string" where
  "jsonQuote s = CHR 0x22 # concat (map jsonEscape s) @ [CHR 0x22]"

definition jsonNumber :: "jsnum \<Rightarrow> string" where
  "jsonNumber n = (case n of NaN \<Rightarrow> ''null'' | Num i \<Rightarrow> showInt i)"

text \<open>One property of an object literal under \<open>JSON.stringify\<close>: nothing when the value is
  undefined, the quoted name, a colon and the value otherwise.\<close>

definition jsonProperty :: "string \<Rightarrow> string option \<Rightarrow> string list" where
  "jsonProperty name v = (case v of None \<Rightarrow> [] | Some text \<Rightarrow> [jsonQuote name @ '':'' @ text])"

fun joinComma :: "string list \<Rightarrow> string" where
  "joinComma [] = []"
| "joinComma [x] = x"
| "joinComma (x # y # rest) = x @ '','' @ joinComma (y # rest)"

text \<open>\<open>JSON.stringify({ startDate, endDate, category, limit, offset })\<close> of the filter\<close>

definition filterString :: "ExpenseFilter \<Rightarrow> string" where
  "filterString filters =
     ''{''
     @ joinComma
         (jsonProperty ''startDate'' (map_option (\<lambda>t. jsonQuote (toISOString t)) (f_startDate filters))
          @ jsonProperty ''endDate'' (map_option (\<lambda>t. jsonQuote (toISOString t)) (f_endDate filters))
          @ jsonProperty ''category'' (map_option jsonQuote (f_category filters))
          @ jsonProperty ''limit'' (map_option jsonNumber (f_limit filters))
          @ jsonProperty ''offset'' (map_option jsonNumber (f_offset filters)))
     @ ''}''"

definition getExpensesCacheKey :: "string \<Rightarrow> ExpenseFilter \<Rightarrow> string" where
  "getExpensesCacheKey user filters = RedisClient_getExpensesCacheKey user (Some (filterString filters))"

section \<open>ExpenseService\<close>

record ExpenseQueryParams =
  qp_period :: "string option"
  qp_startDate :: "string option"
  qp_endDate :: "string option"
  qp_category :: "string option"
  qp_page :: "string option"
  qp_limit :: "string option"

definition EXPENSE_CACHE_TTL :: nat where
  "EXPENSE_CACHE_TTL = 1800"

definition SUMMARY_CACHE_TTL :: nat where
  "SUMMARY_CACHE_TTL = 3600"

definition transformExpenseToResponse :: "Expense \<Rightarrow> jsval" where
  "transformExpenseToResponse expense =
     JObj [(''id'', JStr (oid expense)),
           (''userId'', JStr (userId expense)),
           (''title'', JStr (title expense)),
           (''description'', (case description expense of None \<Rightarrow> JUndefined | Some d \<Rightarrow> JStr d)),
           (''amount'', JNum (amount expense)),
           (''category'', JStr (category expense)),
           (''createdAt'', JDate (createdAt expense)),
           (''updatedAt'', JDate (updatedAt expense))]"

text \<open>The summary object as the aggregation (or the empty-summary literal) builds it.\<close>

definition summaryObject :: "ExpenseSummary \<Rightarrow> jsval" where
  "summaryObject s =
     JObj [(''totalAmount'', JNum (totalAmount s)),
           (''totalCount'', JNum (real (totalCount s))),
           (''categoryBreakdown'',
              JArr (map (\<lambda>b. JObj [(''category'', JStr (b_category b)),
                                    (''amount'', JNum (b_amount b)),
                                    (''count'', JNum (real (b_count b)))])
                        (categoryBreakdown s)))]"

text \<open>The four cache helpers catch every exception of the cache: a failed read is a miss,
  a failed write changes nothing.\<close>

definition cacheExpenses :: "string \<Rightarrow> jsval \<Rightarrow> redis \<Rightarrow> redis" where
  "cacheExpenses cacheKey v r = snd (setJson cacheKey v EXPENSE_CACHE_TTL r)"

definition getCachedExpenses :: "string \<Rightarrow> redis \<Rightarrow> jsval" where
  "getCachedExpenses cacheKey r = (case getJson cacheKey r of Inl x \<Rightarrow> JNull | Inr v \<Rightarrow> v)"

definition cacheSummary :: "string \<Rightarrow> jsval \<Rightarrow> redis \<Rightarrow> redis" where
  "cacheSummary cacheKey v r = snd (setJson cacheKey v SUMMARY_CACHE_TTL r)"

definition getCachedSummary :: "string \<Rightarrow> redis \<Rightarrow> jsval" where
  "getCachedSummary cacheKey r = (case getJson cacheKey r of Inl x \<Rightarrow> JNull | Inr v \<Rightarrow> v)"

text \<open>\<open>Promise.all\<close> of the two pattern deletions, inside a try whose catch only logs.\<close>

definition invalidateUserCaches :: "string \<Rightarrow> redis \<Rightarrow> redis" where
  "invalidateUserCaches user r =
     snd (deletePattern (''expense_summary:'' @ user @ ''*'')
            (snd (deletePattern (''expenses:'' @ user @ ''*'') r)))"

definition createExpense ::
  "runtime \<Rightarrow> string \<Rightarrow> CreateExpenseDto \<Rightarrow> store \<Rightarrow> redis \<Rightarrow> (error + jsval) \<times> store \<times> redis" where
  "createExpense rt user expenseData st r =
     (case create (memoryCollection (rt_newId rt)) (rt_now rt) user expenseData st of
        (Inl x, st') \<Rightarrow> (rethrowApi ''Failed to create expense'' (Inl x), st', r)
      | (Inr expense, st') \<Rightarrow>
          (Inr (transformExpenseToResponse expense), st', invalidateUserCaches user r))"

definition updateExpense ::
  "runtime \<Rightarrow> string \<Rightarrow> string \<Rightarrow> UpdateExpenseDto \<Rightarrow> store \<Rightarrow> redis
     \<Rightarrow> (error + jsval) \<times> store \<times> redis" where
  "updateExpense rt expenseId user updates st r =
     (case updateByIdAndUserId (rt_now rt) expenseId user updates st of
        (Inl x, st') \<Rightarrow> (rethrowApi ''Failed to update expense'' (Inl x), st', r)
      | (Inr None, st') \<Rightarrow>
          (rethrowApi ''Failed to update expense'' (Inl (ApiError ''Expense not found'' 404)), st', r)
      | (Inr (Some updatedExpense), st') \<Rightarrow>
          (Inr (transformExpenseToResponse updatedExpense), st', invalidateUserCaches user r))"

definition deleteExpense ::
  "string \<Rightarrow> string \<Rightarrow> store \<Rightarrow> redis \<Rightarrow> (error + unit) \<times> store \<times> redis" where
  "deleteExpense expenseId user st r =
     (case deleteByIdAndUserId expenseId user st of
        (Inl x, st') \<Rightarrow> (rethrowApi ''Failed to delete expense'' (Inl x), st', r)
      | (Inr deleted, st') \<Rightarrow>
          (if \<not> deleted
           then (rethrowApi ''Failed to delete expense'' (Inl (ApiError ''Expense not found'' 404)), st', r)
           else (Inr (), st', invalidateUserCaches user r)))"

text \<open>\<open>if (queryParams.period) dateRange = DateHelpers.getDateRange(...)\<close>\<close>

definition resolveRange :: "runtime \<Rightarrow> ExpenseQueryParams \<Rightarrow> (int \<times> int) option" where
  "resolveRange rt queryParams =
     (if orElse (qp_period queryParams) [] = [] then None
      else getDateRange rt (qp_period queryParams) (qp_startDate queryParams) (qp_endDate queryParams))"

text \<open>The filter of \<open>getExpenses\<close>, for the ObjectId \<open>u\<close> of the user.\<close>

definition filtersOf :: "runtime \<Rightarrow> objectid \<Rightarrow> ExpenseQueryParams \<Rightarrow> ExpenseFilter" where
  "filtersOf rt u queryParams =
     (let page = parseInt (orElse (qp_page queryParams) ''1'');
          limit = parseInt (orElse (qp_limit queryParams) ''20'');
          offset = jsMul (jsSub page (Num 1)) limit;
          dateRange = resolveRange rt queryParams
      in \<lparr>f_userId = u,
          f_startDate = map_option fst dateRange,
          f_endDate = map_option snd dateRange,
          f_category = qp_category queryParams,
          f_limit = Some limit,
          f_offset = Some offset\<rparr>)"

definition listingObject :: "Expense list \<Rightarrow> nat \<Rightarrow> ExpenseQueryParams \<Rightarrow> jsval" where
  "listingObject expenses n_total queryParams =
     JObj [(''expenses'', JArr (map transformExpenseToResponse expenses)),
           (''total'', JNum (real n_total)),
           (''page'', numJs (parseInt (orElse (qp_page queryParams) ''1''))),
           (''limit'', numJs (parseInt (orElse (qp_limit queryParams) ''20'')))]"

definition getExpenses ::
  "runtime \<Rightarrow> string \<Rightarrow> ExpenseQueryParams \<Rightarrow> store \<Rightarrow> redis \<Rightarrow> (error + jsval) \<times> redis" where
  "getExpenses rt user queryParams st r =
     (case newObjectId user of
        Inl x \<Rightarrow> (rethrowApi ''Failed to get expenses'' (Inl x), r)
      | Inr u \<Rightarrow>
         (let filters = filtersOf rt u queryParams;
              cacheKey = getExpensesCacheKey user filters;
              cachedResult = getCachedExpenses cacheKey r
          in if truthy cachedResult then (Inr cachedResult, r)
             else (case findWithFilters filters st of
                     Inl x \<Rightarrow> (rethrowApi ''Failed to get expenses'' (Inl x), r)
                   | Inr (expenses, n_total) \<Rightarrow>
                      (let result = listingObject expenses n_total queryParams
                       in (Inr result, cacheExpenses cacheKey result r)))))"

definition getExpenseSummary ::
  "runtime \<Rightarrow> string \<Rightarrow> ExpenseQueryParams \<Rightarrow> store \<Rightarrow> redis \<Rightarrow> (error + jsval) \<times> redis" where
  "getExpenseSummary rt user queryParams st r =
     (let dateRange = resolveRange rt queryParams;
          cacheKey = getExpenseSummaryCacheKey user (qp_period queryParams);
          cachedSummary = getCachedSummary cacheKey r
      in if truthy cachedSummary then (Inr cachedSummary, r)
         else (case getSummary user (map_option fst dateRange) (map_option snd dateRange) st of
                 Inl x \<Rightarrow> (rethrowApi ''Failed to get expense summary'' (Inl x), r)
               | Inr summary \<Rightarrow>
                  (Inr (summaryObject summary), cacheSummary cacheKey (summaryObject summary) r)))"

section \<open>Concrete data for the worked instances\<close>

definition userA :: string where
  "userA = ''aaaaaaaaaaaaaaaaaaaaaaaa''"

definition userB :: string where
  "userB = ''bbbbbbbbbbbbbbbbbbbbbbbb''"

definition exA :: Expense where
  "exA = \<lparr>oid = ''65a000000000000000000001'', userId = ''aaaaaaaaaaaaaaaaaaaaaaaa'',
           title = ''Milk'', description = None, amount = 50, category = ''Groceries'',
           createdAt = 1000, updatedAt = 1000\<rparr>"

definition storeA :: store where
  "storeA = \<lparr>docs = [exA], online = True\<rparr>"

definition titleUpdate :: UpdateExpenseDto where
  "titleUpdate = \<lparr>u_title = Some ''Bread'', u_description = None, u_amount = None, u_category = None\<rparr>"

text \<open>Twenty-one expenses of one user with the same creation timestamp, held by the
  store in two orders; and twenty-one with distinct timestamps.\<close>

definition tieDoc :: "nat \<Rightarrow> Expense" where
  "tieDoc n = \<lparr>oid = replicate n (CHR ''1'') @ replicate (24 - n) (CHR ''0''),
               userId = ''aaaaaaaaaaaaaaaaaaaaaaaa'', title = ''Tea'', description = None,
               amount = 1, category = ''Others'', createdAt = 5000, updatedAt = 5000\<rparr>"

definition tieStoreA :: store where
  "tieStoreA = \<lparr>docs = map tieDoc [1..<22], online = True\<rparr>"

definition tieStoreB :: store where
  "tieStoreB = \<lparr>docs = tieDoc 21 # map tieDoc [1..<21], online = True\<rparr>"

definition stampDoc :: "nat \<Rightarrow> Expense" where
  "stampDoc n = \<lparr>oid = replicate n (CHR ''1'') @ replicate (24 - n) (CHR ''0''),
                 userId = ''aaaaaaaaaaaaaaaaaaaaaaaa'', title = ''Tea'', description = None,
                 amount = 1, category = ''Others'', createdAt = int n, updatedAt = int n\<rparr>"

definition stampStoreA :: store where
  "stampStoreA = \<lparr>docs = map stampDoc [1..<22], online = True\<rparr>"

definition stampStoreB :: store where
  "stampStoreB = \<lparr>docs = rev (map stampDoc [1..<22]), online = True\<rparr>"

definition pageFilter :: "int \<Rightarrow> int \<Rightarrow> ExpenseFilter" where
  "pageFilter L k =
     \<lparr>f_userId = ''aaaaaaaaaaaaaaaaaaaaaaaa'', f_startDate = None, f_endDate = None,
      f_category = None, f_limit = Some (Num L), f_offset = Some (Num k)\<rparr>"

text \<open>Three expenses of user A (10 and 20 for groceries, 30 for electronics) and one of
  user B.\<close>

definition threeStore :: store where
  "threeStore =
     \<lparr>docs =
        [\<lparr>oid = ''65a000000000000000000011'', userId = ''aaaaaaaaaaaaaaaaaaaaaaaa'',
          title = ''Bread'', description = None, amount = 10, category = ''Groceries'',
          createdAt = 1000, updatedAt = 1000\<rparr>,
         \<lparr>oid = ''65a000000000000000000012'', userId = ''bbbbbbbbbbbbbbbbbbbbbbbb'',
          title = ''Shoes'', description = None, amount = 70, category = ''Clothing'',
          createdAt = 1500, updatedAt = 1500\<rparr>,
         \<lparr>oid = ''65a000000000000000000013'', userId = ''aaaaaaaaaaaaaaaaaaaaaaaa'',
          title = ''Cable'', description = Some ''usb'', amount = 30, category = ''Electronics'',
          createdAt = 2000, updatedAt = 2000\<rparr>,
         \<lparr>oid = ''65a000000000000000000014'', userId = ''aaaaaaaaaaaaaaaaaaaaaaaa'',
          title = ''Fruit'', description = None, amount = 20, category = ''Groceries'',
          createdAt = 3000, updatedAt = 3000\<rparr>],
      online = True\<rparr>"


text \<open>A new expense, and two collections that misbehave: one whose \<open>insertOne\<close> reports
  no \<open>insertedId\<close>, one whose read-back finds nothing.\<close>

definition coffee :: CreateExpenseDto where
  "coffee = \<lparr>c_title = ''Coffee'', c_description = None, c_amount = 100, c_category = ''Groceries''\<rparr>"

definition noIdCollection :: "store collection" where
  "noIdCollection = \<lparr>insertOne = (\<lambda>d st. (Inr None, st)), findOne = mongo_findOne\<rparr>"

definition lostCollection :: "objectid \<Rightarrow> store collection" where
  "lostCollection newId = \<lparr>insertOne = mongo_insertOne newId, findOne = (\<lambda>P st. Inr None)\<rparr>"

text \<open>A runtime (clock at 10000 ms, UTC, a parser that knows two dates), query parameters,
  and caches.\<close>

definition rt0 :: runtime where
  "rt0 = \<lparr>rt_now = 10000, rt_offsetAt = (\<lambda>t. 0), rt_offsetOfLocal = (\<lambda>t. 0),
          rt_parse = (\<lambda>s. if s = ''2024-01-01'' then Some 1704067200000
                           else if s = ''2024-01-31'' then Some 1706659200000 else None),
          rt_newId = ''65a000000000000000000002''\<rparr>"

definition noParams :: ExpenseQueryParams where
  "noParams = \<lparr>qp_period = None, qp_startDate = None, qp_endDate = None, qp_category = None,
               qp_page = None, qp_limit = None\<rparr>"

definition customNoBounds :: ExpenseQueryParams where
  "customNoBounds = noParams\<lparr>qp_period := Some ''custom''\<rparr>"

definition customJanuary :: ExpenseQueryParams where
  "customJanuary = noParams\<lparr>qp_period := Some ''custom'', qp_startDate := Some ''2024-01-01'',
                            qp_endDate := Some ''2024-01-31''\<rparr>"

definition emptyCache :: redis where
  "emptyCache = \<lparr>available = True, entries = []\<rparr>"

definition downCache :: redis where
  "downCache = \<lparr>available = False, entries = []\<rparr>"

definition pageTwoJanuary :: ExpenseQueryParams where
  "pageTwoJanuary = customJanuary\<lparr>qp_category := Some ''Groceries'', qp_page := Some ''2''\<rparr>"

text \<open>The cache after a summary of \<open>storeA\<close> was read through it, and the store after
  the coffee was added.\<close>

definition warmCache :: redis where
  "warmCache = snd (getExpenseSummary rt0 userA noParams storeA emptyCache)"

definition storeAfterCoffee :: store where
  "storeAfterCoffee =
     \<lparr>docs = [exA,
              \<lparr>oid = ''65a000000000000000000002'', userId = ''aaaaaaaaaaaaaaaaaaaaaaaa'',
               title = ''Coffee'', description = None, amount = 100, category = ''Groceries'',
               createdAt = 10000, updatedAt = 10000\<rparr>],
      online = True\<rparr>"

section \<open>Facts shared by the proofs\<close>

subsection \<open>Double-precision sums\<close>

text \<open>Evaluation of \<open>roundDouble\<close> on a number, and its exactness on the integers below
  \<open>2^53\<close> in absolute value.\<close>

lemma pow2_nat: "pow2 (- int j) * 2 ^ j = 1"
  by (simp add: pow2_def)

lemma scaleMantissa_step:
  "0 < n \<Longrightarrow> scaleMantissa n m e =
     (if m < 4503599627370496 then scaleMantissa (n - 1) (m * 2) (e - 1)
      else if 9007199254740992 \<le> m then scaleMantissa (n - 1) (m / 2) (e + 1)
      else (m, e))"
  by (cases n) simp_all

lemmas double_eval =
  roundDouble_def scaleMantissa_step roundEven_def fadd_def dsum_def pow2_def Let_def

lemma scaleMantissa_up:
  "0 < m \<Longrightarrow> m < 9007199254740992 \<Longrightarrow> 4503599627370496 \<le> m * 2 ^ k \<Longrightarrow>
     \<exists>j. scaleMantissa k m e = (m * 2 ^ j, e - int j)"
proof (induction k arbitrary: m e)
  case 0
  then show ?case by (intro exI[of _ 0]) simp
next
  case (Suc k)
  show ?case
  proof (cases "m < 4503599627370496")
    case True
    have "\<exists>j. scaleMantissa k (m * 2) (e - 1) = (m * 2 * 2 ^ j, e - 1 - int j)"
      using Suc.prems True by (intro Suc.IH) (simp_all add: mult.assoc)
    then obtain j where "scaleMantissa k (m * 2) (e - 1) = (m * 2 * 2 ^ j, e - 1 - int j)" ..
    with True show ?thesis by (intro exI[of _ "Suc j"]) (simp add: mult.assoc)
  next
    case False
    with Suc.prems show ?thesis by (intro exI[of _ 0]) simp
  qed
qed

lemma roundEven_of_int: "roundEven (of_int n) = n"
  by (simp add: roundEven_def)

lemma roundDouble_of_int:
  assumes "\<bar>n\<bar> < 9007199254740992"
  shows "roundDouble (of_int n) = of_int n"
proof (cases "n = 0")
  case True
  then show ?thesis by (simp add: roundDouble_def)
next
  case False
  define m :: real where "m = of_int \<bar>n\<bar>"
  have m1: "1 \<le> m" using False by (simp add: m_def)
  have m2: "m < 9007199254740992" using assms unfolding m_def by linarith
  have "(4503599627370496::real) \<le> 1 * 2 ^ 2200" by simp
  also have "\<dots> \<le> m * 2 ^ 2200" using m1 by (intro mult_right_mono) simp_all
  finally have big: "4503599627370496 \<le> m * 2 ^ 2200" .
  obtain j where j: "scaleMantissa 2200 m 0 = (m * 2 ^ j, 0 - int j)"
    using scaleMantissa_up[of m 2200 0] m1 m2 big by auto
  have "m * 2 ^ j = of_int (\<bar>n\<bar> * 2 ^ j)" by (simp add: m_def)
  then have re: "roundEven (m * 2 ^ j) = \<bar>n\<bar> * 2 ^ j"
    by (simp only: roundEven_of_int)
  have abs: "\<bar>real_of_int n\<bar> = m" by (simp add: m_def)
  have "roundDouble (of_int n) = sgn (real_of_int n) * of_int (\<bar>n\<bar> * 2 ^ j) * pow2 (- int j)"
    using False by (simp add: roundDouble_def abs j re)
  also have "\<dots> = sgn (real_of_int n) * \<bar>real_of_int n\<bar> * (pow2 (- int j) * 2 ^ j)"
    by simp
  also have "\<dots> = of_int n"
    by (simp only: pow2_nat) (simp add: sgn_mult_abs)
  finally show ?thesis .
qed

lemma roundDouble_numeral:
  "numeral k < (9007199254740992::int) \<Longrightarrow> roundDouble (numeral k) = numeral k"
  using roundDouble_of_int[of "numeral k"] by simp



subsection \<open>Numbers read from the query string\<close>

lemma roundInt_small: "\<bar>n\<bar> < 9007199254740992 \<Longrightarrow> roundInt n = n"
  by (simp add: roundInt_def roundDouble_of_int)

lemma parseInt_small:
  "parseInteger s = Some n \<Longrightarrow> \<bar>n\<bar> < 9007199254740992 \<Longrightarrow> parseInt s = Num n"
  by (simp add: parseInt_def roundInt_small)

lemma parseInt_1: "parseInt ''1'' = Num 1"
proof -
  have "parseInteger ''1'' = Some 1" by code_simp
  then show ?thesis by (rule parseInt_small) simp
qed

lemma parseInt_20: "parseInt ''20'' = Num 20"
proof -
  have "parseInteger ''20'' = Some 20" by code_simp
  then show ?thesis by (rule parseInt_small) simp
qed

lemma parseInt_2: "parseInt ''2'' = Num 2"
proof -
  have "parseInteger ''2'' = Some 2" by code_simp
  then show ?thesis by (rule parseInt_small) simp
qed

lemma parseInt_0: "parseInt ''0'' = Num 0"
proof -
  have "parseInteger ''0'' = Some 0" by code_simp
  then show ?thesis by (rule parseInt_small) simp
qed

lemma parseInt_minus3: "parseInt ''-3'' = Num (- 3)"
proof -
  have "parseInteger ''-3'' = Some (- 3)" by code_simp
  then show ?thesis by (rule parseInt_small) simp
qed

text \<open>Beyond \<open>2^53\<close> the number read is the nearest double.\<close>

lemma parseInt_big: "parseInt ''9007199254740993'' = Num 9007199254740992"
proof -
  have "parseInteger ''9007199254740993'' = Some 9007199254740993" by code_simp
  moreover have "roundDouble 9007199254740993 = 9007199254740992"
    by (simp add: double_eval)
  ultimately show ?thesis by (simp add: parseInt_def roundInt_def)
qed

subsection \<open>The worked instances\<close>

lemma find_None_iff_not: "find P xs = None \<longleftrightarrow> (\<forall>x\<in>set xs. \<not> P x)"
  by (induction xs) auto

lemma userA_valid: "isValid userA"
  by (simp add: userA_def isValid_def isHexDigit_def)

lemma default_filters:
  "filtersOf rt0 (map toLowerHex userA) noParams
     = \<lparr>f_userId = ''aaaaaaaaaaaaaaaaaaaaaaaa'', f_startDate = None, f_endDate = None,
        f_category = None, f_limit = Some (Num 20), f_offset = Some (Num 0)\<rparr>"
proof -
  have p1: "parseInt ''1'' = Num 1" by (rule parseInt_1)
  have p20: "parseInt ''20'' = Num 20" by (rule parseInt_20)
  show ?thesis
    by (simp add: filtersOf_def noParams_def orElse_def p1 p20 jsSub_def jsMul_def roundInt_small resolveRange_def
        userA_def toLowerHex_def)
qed

lemma create_coffee:
  "create (memoryCollection (rt_newId rt0)) (rt_now rt0) userA coffee storeA
     = (Inr \<lparr>oid = ''65a000000000000000000002'', userId = ''aaaaaaaaaaaaaaaaaaaaaaaa'',
              title = ''Coffee'', description = None, amount = 100, category = ''Groceries'',
              createdAt = 10000, updatedAt = 10000\<rparr>,
        \<lparr>docs = [exA,
                 \<lparr>oid = ''65a000000000000000000002'', userId = ''aaaaaaaaaaaaaaaaaaaaaaaa'',
                  title = ''Coffee'', description = None, amount = 100, category = ''Groceries'',
                  createdAt = 10000, updatedAt = 10000\<rparr>],
         online = True\<rparr>)"
  using userA_valid
  by (simp add: create_def newObjectId_def memoryCollection_def mongo_insertOne_def findById_def
      mongo_findOne_def wrapAll_def Let_def rt0_def storeA_def exA_def isValid_def isHexDigit_def
      toLowerHex_def withId_def expenseDocOf_def coffee_def userA_def)

lemma delete_exA:
  "deleteByIdAndUserId ''65a000000000000000000001'' userA storeA
     = (Inr True, \<lparr>docs = [], online = True\<rparr>)"
  by (simp add: deleteByIdAndUserId_def newObjectId_def mongo_deleteOne_def byIdAndUserId_def
      isValid_def isHexDigit_def toLowerHex_def storeA_def exA_def userA_def)

section \<open>The summary invariant\<close>




















section \<open>Invalidation after a mutation\<close>

lemma glob_star_all: "globMatch ''*'' k"
  by (induction k) auto

lemma glob_literal_star:
  assumes "\<forall>c\<in>set p. c \<noteq> CHR ''*'' \<and> c \<noteq> CHR ''?''"
  shows "globMatch (p @ ''*'') k \<longleftrightarrow> prefix p k"
  using assms
proof (induction p arbitrary: k)
  case Nil
  then show ?case by (simp add: glob_star_all)
next
  case (Cons c ps)
  show ?case
  proof (cases k)
    case Nil
    with Cons.prems show ?thesis by simp
  next
    case (Cons d ks)
    with Cons.prems Cons.IH[of ks] show ?thesis by auto
  qed
qed

lemma hex_char: "isHexDigit c \<Longrightarrow> c \<noteq> CHR ''*'' \<and> c \<noteq> CHR ''?''"
  by (auto simp: isHexDigit_def)

lemma hex_not_glob:
  assumes "\<forall>c\<in>set pre. c \<noteq> CHR ''*'' \<and> c \<noteq> CHR ''?''" and "isValid user"
  shows "\<forall>c\<in>set (pre @ user). c \<noteq> CHR ''*'' \<and> c \<noteq> CHR ''?''"
proof
  fix c assume "c \<in> set (pre @ user)"
  then consider "c \<in> set pre" | "c \<in> set user" by auto
  then show "c \<noteq> CHR ''*'' \<and> c \<noteq> CHR ''?''"
  proof cases
    case 1
    with assms(1) show ?thesis by blast
  next
    case 2
    with assms(2) have "isHexDigit c" by (simp add: isValid_def list_all_iff)
    then show ?thesis by (rule hex_char)
  qed
qed

lemma user_patterns:
  assumes "isValid user"
  shows "globMatch (''expenses:'' @ user @ ''*'') k \<longleftrightarrow> prefix (''expenses:'' @ user) k"
    and "globMatch (''expense_summary:'' @ user @ ''*'') k \<longleftrightarrow> prefix (''expense_summary:'' @ user) k"
proof -
  have a: "\<forall>c\<in>set (''expenses:'' @ user). c \<noteq> CHR ''*'' \<and> c \<noteq> CHR ''?''"
    by (rule hex_not_glob[OF _ assms]) simp
  have b: "\<forall>c\<in>set (''expense_summary:'' @ user). c \<noteq> CHR ''*'' \<and> c \<noteq> CHR ''?''"
    by (rule hex_not_glob[OF _ assms]) simp
  show "globMatch (''expenses:'' @ user @ ''*'') k \<longleftrightarrow> prefix (''expenses:'' @ user) k"
    using glob_literal_star[OF a, of k] by simp
  show "globMatch (''expense_summary:'' @ user @ ''*'') k \<longleftrightarrow> prefix (''expense_summary:'' @ user) k"
    using glob_literal_star[OF b, of k] by simp
qed

lemma deletePattern_available:
  assumes "available r"
  shows "deletePattern pat r
         = (Inr (), r\<lparr>entries := filter (\<lambda>e. \<not> globMatch pat (fst e)) (entries r)\<rparr>)"
proof (cases "filter (globMatch pat) (map fst (entries r)) = []")
  case True
  then have "\<forall>e\<in>set (entries r). \<not> globMatch pat (fst e)"
    by (auto simp: filter_empty_conv)
  then have "filter (\<lambda>e. \<not> globMatch pat (fst e)) (entries r) = entries r"
    by (simp add: filter_id_conv)
  with True assms show ?thesis by (simp add: deletePattern_def)
next
  case False
  have "filter (\<lambda>e. fst e \<notin> set (filter (globMatch pat) (map fst (entries r)))) (entries r)
        = filter (\<lambda>e. \<not> globMatch pat (fst e)) (entries r)"
    by (rule filter_cong) auto
  with False assms show ?thesis by (simp add: deletePattern_def Let_def)
qed

lemma invalidate_available:
  assumes "available r" and "isValid user"
  shows "invalidateUserCaches user r
         = r\<lparr>entries := filter (\<lambda>e. \<not> prefix (''expenses:'' @ user) (fst e)
                                    \<and> \<not> prefix (''expense_summary:'' @ user) (fst e)) (entries r)\<rparr>"
proof -
  have "filter (\<lambda>e. \<not> globMatch (''expense_summary:'' @ user @ ''*'') (fst e))
          (filter (\<lambda>e. \<not> globMatch (''expenses:'' @ user @ ''*'') (fst e)) (entries r))
        = filter (\<lambda>e. \<not> prefix (''expenses:'' @ user) (fst e)
                       \<and> \<not> prefix (''expense_summary:'' @ user) (fst e)) (entries r)"
    unfolding user_patterns[OF assms(2)] by (simp add: conj_commute)
  then show ?thesis
    using assms(1) by (simp add: invalidateUserCaches_def deletePattern_available)
qed

lemma no_entry_miss:
  assumes "available r" and "\<forall>k\<in>set (map fst (entries r)). k \<noteq> key"
  shows "getCachedExpenses key r = JNull" and "getCachedSummary key r = JNull"
proof -
  have "find (\<lambda>e. fst e = key) (entries r) = None"
    using assms(2) by (auto simp: find_None_iff_not)
  then show "getCachedExpenses key r = JNull" and "getCachedSummary key r = JNull"
    using assms(1)
    by (simp_all add: getCachedExpenses_def getCachedSummary_def getJson_def redis_get_def)
qed

lemma listing_key_prefix: "prefix (''expenses:'' @ user) (getExpensesCacheKey user f)"
  by (simp add: getExpensesCacheKey_def RedisClient_getExpensesCacheKey_def)

lemma summary_key_prefix: "prefix (''expense_summary:'' @ user) (getExpenseSummaryCacheKey user p)"
  by (simp add: getExpenseSummaryCacheKey_def)

lemma reads_after_invalidation:
  assumes "available r'"
    and "\<forall>k\<in>set (map fst (entries r')).
           \<not> prefix (''expenses:'' @ user) k \<and> \<not> prefix (''expense_summary:'' @ user) k"
  shows "fst (getExpenses rt user queryParams st r') = fst (getExpenses rt user queryParams st emptyCache)"
    and "fst (getExpenseSummary rt user queryParams st r')
         = fst (getExpenseSummary rt user queryParams st emptyCache)"
proof -
  have m1: "getCachedExpenses (getExpensesCacheKey user f) r' = JNull" for f
    using assms listing_key_prefix[of user f] by (intro no_entry_miss) auto
  have m2: "getCachedSummary (getExpenseSummaryCacheKey user p) r' = JNull" for p
    using assms summary_key_prefix[of user p] by (intro no_entry_miss) auto
  have e: "getCachedExpenses k emptyCache = JNull" "getCachedSummary k emptyCache = JNull" for k
    by (simp_all add: getCachedExpenses_def getCachedSummary_def getJson_def redis_get_def emptyCache_def)
  show "fst (getExpenses rt user queryParams st r') = fst (getExpenses rt user queryParams st emptyCache)"
    by (simp add: getExpenses_def m1 e Let_def split: sum.splits prod.splits)
  show "fst (getExpenseSummary rt user queryParams st r')
         = fst (getExpenseSummary rt user queryParams st emptyCache)"
    by (simp add: getExpenseSummary_def m2 e Let_def split: sum.splits)
qed

lemma rethrowApi_Inl: "rethrowApi msg (Inl x) \<noteq> Inr v"
  by (cases x) (simp_all add: rethrowApi_def)

lemma create_Inr_valid:
  assumes "create coll now user expenseData st = (Inr e, st')"
  shows "isValid user"
proof (rule ccontr)
  assume "\<not> isValid user"
  then have "create coll now user expenseData st = (Inl (ApiError ''Invalid user ID'' 400), st)"
    by (simp add: create_def rethrowApi_def)
  with assms show False by simp
qed

lemma update_Some_valid:
  assumes "updateByIdAndUserId now expenseId user updates st = (Inr (Some e), st')"
  shows "isValid user"
proof (rule ccontr)
  assume "\<not> isValid user"
  then have "updateByIdAndUserId now expenseId user updates st = (Inr None, st)"
    by (simp add: updateByIdAndUserId_def)
  with assms show False by simp
qed

lemma delete_True_valid:
  assumes "deleteByIdAndUserId expenseId user st = (Inr True, st')"
  shows "isValid user"
proof (rule ccontr)
  assume "\<not> isValid user"
  then have "deleteByIdAndUserId expenseId user st = (Inr False, st)"
    by (simp add: deleteByIdAndUserId_def)
  with assms show False by simp
qed

lemma createExpense_success:
  assumes "createExpense rt user expenseData st r = (Inr v, st', r')"
  shows "isValid user \<and> r' = invalidateUserCaches user r"
proof -
  obtain res st1 where c: "create (memoryCollection (rt_newId rt)) (rt_now rt) user expenseData st = (res, st1)"
    by (cases "create (memoryCollection (rt_newId rt)) (rt_now rt) user expenseData st")
  show ?thesis
  proof (cases res)
    case (Inl x)
    with assms c show ?thesis by (simp add: createExpense_def rethrowApi_Inl)
  next
    case (Inr e)
    with assms c have "r' = invalidateUserCaches user r" by (simp add: createExpense_def)
    moreover have "isValid user" using c Inr by (auto intro: create_Inr_valid)
    ultimately show ?thesis by simp
  qed
qed

lemma updateExpense_success:
  assumes "updateExpense rt expenseId user updates st r = (Inr v, st', r')"
  shows "isValid user \<and> r' = invalidateUserCaches user r"
proof -
  obtain res st1 where c: "updateByIdAndUserId (rt_now rt) expenseId user updates st = (res, st1)"
    by (cases "updateByIdAndUserId (rt_now rt) expenseId user updates st")
  show ?thesis
  proof (cases res)
    case (Inl x)
    with assms c show ?thesis by (simp add: updateExpense_def rethrowApi_Inl)
  next
    case (Inr found)
    show ?thesis
    proof (cases found)
      case None
      with assms c Inr show ?thesis by (simp add: updateExpense_def rethrowApi_Inl)
    next
      case (Some e)
      with assms c Inr have "r' = invalidateUserCaches user r" by (simp add: updateExpense_def)
      moreover have "isValid user" using c Inr Some by (auto intro: update_Some_valid)
      ultimately show ?thesis by simp
    qed
  qed
qed

lemma deleteExpense_success:
  assumes "deleteExpense expenseId user st r = (Inr (), st', r')"
  shows "isValid user \<and> r' = invalidateUserCaches user r"
proof -
  obtain res st1 where c: "deleteByIdAndUserId expenseId user st = (res, st1)"
    by (cases "deleteByIdAndUserId expenseId user st")
  show ?thesis
  proof (cases res)
    case (Inl x)
    with assms c show ?thesis by (simp add: deleteExpense_def rethrowApi_Inl)
  next
    case (Inr deleted)
    show ?thesis
    proof (cases deleted)
      case False
      with assms c Inr show ?thesis by (simp add: deleteExpense_def rethrowApi_Inl)
    next
      case True
      with assms c Inr have "r' = invalidateUserCaches user r" by (simp add: deleteExpense_def)
      moreover have "isValid user" using c Inr True by (auto intro: delete_True_valid)
      ultimately show ?thesis by simp
    qed
  qed
qed

lemma mutation_success:
  assumes "createExpense rt user expenseData st r = (Inr v, st', r')
         \<or> updateExpense rt expenseId user updates st r = (Inr v, st', r')
         \<or> deleteExpense expenseId user st r = (Inr (), st', r')"
  shows "isValid user \<and> r' = invalidateUserCaches user r"
  using assms
proof (elim disjE)
  assume "createExpense rt user expenseData st r = (Inr v, st', r')"
  then show ?thesis by (rule createExpense_success)
next
  assume "updateExpense rt expenseId user updates st r = (Inr v, st', r')"
  then show ?thesis by (rule updateExpense_success)
next
  assume "deleteExpense expenseId user st r = (Inr (), st', r')"
  then show ?thesis by (rule deleteExpense_success)
qed

text \<open>
  C2 (amended). After a successful \<open>createExpense\<close>, \<open>updateExpense\<close> or \<open>deleteExpense\<close>
  for user U during which the cache answers, the cache the mutation leaves holds no key
  prefixed \<open>expenses:<U>\<close> and no key prefixed \<open>expense_summary:<U>\<close>; hence every
  listing and every summary read for U that follows returns what it returns with an
  empty cache, that is, the result computed from the store as the mutation left it.
  (When the cache does not answer, the mutation succeeds all the same and deletes
  nothing.)
\<close>

theorem invalidation_after_mutation:
  assumes "available r"
    and "createExpense rt user expenseData st r = (Inr v, st', r')
         \<or> updateExpense rt expenseId user updates st r = (Inr v, st', r')
         \<or> deleteExpense expenseId user st r = (Inr (), st', r')"
  shows "(\<forall>k\<in>set (map fst (entries r')).
            \<not> prefix (''expenses:'' @ user) k \<and> \<not> prefix (''expense_summary:'' @ user) k)
       \<and> fst (getExpenses rt2 user queryParams st' r')
           = fst (getExpenses rt2 user queryParams st' emptyCache)
       \<and> fst (getExpenseSummary rt2 user queryParams st' r')
           = fst (getExpenseSummary rt2 user queryParams st' emptyCache)"
proof -
  from mutation_success[OF assms(2)]
  have v: "isValid user" and r': "r' = invalidateUserCaches user r" by simp_all
  have eq: "r' = r\<lparr>entries := filter (\<lambda>e. \<not> prefix (''expenses:'' @ user) (fst e)
                                    \<and> \<not> prefix (''expense_summary:'' @ user) (fst e)) (entries r)\<rparr>"
    unfolding r' using assms(1) v by (rule invalidate_available)
  have av: "available r'" using assms(1) by (simp add: eq)
  have gone: "\<forall>k\<in>set (map fst (entries r')).
            \<not> prefix (''expenses:'' @ user) k \<and> \<not> prefix (''expense_summary:'' @ user) k"
    by (auto simp: eq)
  show ?thesis
    using gone reads_after_invalidation[OF av gone] by simp
qed

lemma summary_before:
  "getSummary userA None None storeA
     = Inr \<lparr>totalAmount = 50, totalCount = 1,
            categoryBreakdown = [\<lparr>b_category = ''Groceries'', b_amount = 50, b_count = 1\<rparr>]\<rparr>"
  by (simp add: getSummary_def newObjectId_def mongo_aggregate_def wrapAll_def isValid_def
      isHexDigit_def matches_def matchStage_def userA_def toLowerHex_def groupAll_def
      unwindCategories_def regroup_def project_def breakdownOf_def storeA_def exA_def
      dsum_def fadd_def roundDouble_numeral)

lemma summary_after:
  "getSummary userA None None storeAfterCoffee
     = Inr \<lparr>totalAmount = 150, totalCount = 2,
            categoryBreakdown = [\<lparr>b_category = ''Groceries'', b_amount = 150, b_count = 2\<rparr>]\<rparr>"
  by (simp add: getSummary_def newObjectId_def mongo_aggregate_def wrapAll_def isValid_def
      isHexDigit_def matches_def matchStage_def userA_def toLowerHex_def groupAll_def
      unwindCategories_def regroup_def project_def breakdownOf_def storeAfterCoffee_def exA_def
      dsum_def fadd_def roundDouble_numeral)

lemma truthy_summary: "truthy (summaryObject s)"
  by (simp add: summaryObject_def)

lemma no_range: "resolveRange rt0 noParams = None"
  by (simp add: resolveRange_def noParams_def orElse_def)

lemma warm_cache:
  "warmCache
     = \<lparr>available = True,
        entries = [(''expense_summary:aaaaaaaaaaaaaaaaaaaaaaaa'',
                    JsonText (summaryObject
                      \<lparr>totalAmount = 50, totalCount = 1,
                       categoryBreakdown = [\<lparr>b_category = ''Groceries'', b_amount = 50, b_count = 1\<rparr>]\<rparr>),
                    Some 3600)]\<rparr>"
proof -
  have np: "qp_period noParams = None" by (simp add: noParams_def)
  have key: "getExpenseSummaryCacheKey userA None = ''expense_summary:aaaaaaaaaaaaaaaaaaaaaaaa''"
    by (simp add: getExpenseSummaryCacheKey_def userA_def)
  have "warmCache
        = cacheSummary ''expense_summary:aaaaaaaaaaaaaaaaaaaaaaaa''
            (summaryObject
               \<lparr>totalAmount = 50, totalCount = 1,
                categoryBreakdown = [\<lparr>b_category = ''Groceries'', b_amount = 50, b_count = 1\<rparr>]\<rparr>)
            emptyCache"
    by (simp add: warmCache_def getExpenseSummary_def no_range summary_before Let_def np key
        getCachedSummary_def getJson_def redis_get_def emptyCache_def)
  then show ?thesis
    by (simp add: cacheSummary_def setJson_def redis_set_def SUMMARY_CACHE_TTL_def emptyCache_def
        summaryObject_def)
qed

text \<open>
  The claim as stated fails when the cache does not answer during the mutation. A
  summary of user A (total 50) is in the cache; \<open>createExpense\<close> adds 100 while every
  cache operation throws: it succeeds, and the key \<open>expense_summary:<A>\<close> is still there.
  When the cache answers again, the summary read returns the total 50 computed before
  the mutation, where the store now gives 150.
\<close>

theorem invalidation_counterexample:
  "createExpense rt0 userA coffee storeA (warmCache\<lparr>available := False\<rparr>)
     = (Inr (transformExpenseToResponse (docs storeAfterCoffee ! 1)), storeAfterCoffee,
        warmCache\<lparr>available := False\<rparr>)
   \<and> map fst (entries (warmCache\<lparr>available := False\<rparr>)) = [''expense_summary:aaaaaaaaaaaaaaaaaaaaaaaa'']
   \<and> fst (getExpenseSummary rt0 userA noParams storeAfterCoffee warmCache)
       = Inr (summaryObject
                \<lparr>totalAmount = 50, totalCount = 1,
                 categoryBreakdown = [\<lparr>b_category = ''Groceries'', b_amount = 50, b_count = 1\<rparr>]\<rparr>)
   \<and> getSummary userA None None storeAfterCoffee
       = Inr \<lparr>totalAmount = 150, totalCount = 2,
              categoryBreakdown = [\<lparr>b_category = ''Groceries'', b_amount = 150, b_count = 2\<rparr>]\<rparr>"
proof -
  have inv: "invalidateUserCaches userA (warmCache\<lparr>available := False\<rparr>) = warmCache\<lparr>available := False\<rparr>"
    by (simp add: invalidateUserCaches_def deletePattern_def)
  have a: "createExpense rt0 userA coffee storeA (warmCache\<lparr>available := False\<rparr>)
     = (Inr (transformExpenseToResponse (docs storeAfterCoffee ! 1)), storeAfterCoffee,
        warmCache\<lparr>available := False\<rparr>)"
    by (simp add: createExpense_def create_coffee inv storeAfterCoffee_def)
  have b: "map fst (entries (warmCache\<lparr>available := False\<rparr>)) = [''expense_summary:aaaaaaaaaaaaaaaaaaaaaaaa'']"
    by (simp add: warm_cache)
  have c: "fst (getExpenseSummary rt0 userA noParams storeAfterCoffee warmCache)
       = Inr (summaryObject
                \<lparr>totalAmount = 50, totalCount = 1,
                 categoryBreakdown = [\<lparr>b_category = ''Groceries'', b_amount = 50, b_count = 1\<rparr>]\<rparr>)"
  proof -
    have "getCachedSummary (getExpenseSummaryCacheKey userA (qp_period noParams)) warmCache
          = summaryObject
              \<lparr>totalAmount = 50, totalCount = 1,
               categoryBreakdown = [\<lparr>b_category = ''Groceries'', b_amount = 50, b_count = 1\<rparr>]\<rparr>"
      by (simp add: noParams_def getExpenseSummaryCacheKey_def userA_def getCachedSummary_def
          getJson_def redis_get_def warm_cache)
    then show ?thesis
      by (simp add: getExpenseSummary_def Let_def truthy_summary)
  qed
  show ?thesis by (intro conjI a b c summary_after)
qed

theorem invalidation_after_mutation_witness:
  "available warmCache
   \<and> createExpense rt0 userA coffee storeA warmCache
       = (Inr (transformExpenseToResponse (docs storeAfterCoffee ! 1)), storeAfterCoffee, emptyCache)
   \<and> fst (getExpenseSummary rt0 userA noParams storeAfterCoffee
             (snd (snd (createExpense rt0 userA coffee storeA warmCache))))
       = Inr (summaryObject
                \<lparr>totalAmount = 150, totalCount = 2,
                 categoryBreakdown = [\<lparr>b_category = ''Groceries'', b_amount = 150, b_count = 2\<rparr>]\<rparr>)"
proof -
  have av: "available warmCache" by (simp add: warm_cache)
  have g: "globMatch ''expense_summary:aaaaaaaaaaaaaaaaaaaaaaaa*'' ''expense_summary:aaaaaaaaaaaaaaaaaaaaaaaa''"
    by simp
  have ng: "\<not> globMatch ''expenses:aaaaaaaaaaaaaaaaaaaaaaaa*'' ''expense_summary:aaaaaaaaaaaaaaaaaaaaaaaa''"
    by simp
  have inv: "invalidateUserCaches userA warmCache = emptyCache"
    by (simp add: invalidateUserCaches_def deletePattern_def warm_cache userA_def g ng emptyCache_def)
  have c: "createExpense rt0 userA coffee storeA warmCache
       = (Inr (transformExpenseToResponse (docs storeAfterCoffee ! 1)), storeAfterCoffee, emptyCache)"
    by (simp add: createExpense_def create_coffee inv storeAfterCoffee_def)
  have fresh: "fst (getExpenseSummary rt0 userA noParams storeAfterCoffee emptyCache)
       = Inr (summaryObject
                \<lparr>totalAmount = 150, totalCount = 2,
                 categoryBreakdown = [\<lparr>b_category = ''Groceries'', b_amount = 150, b_count = 2\<rparr>]\<rparr>)"
    by (simp add: getExpenseSummary_def no_range summary_after Let_def getCachedSummary_def
        getJson_def redis_get_def emptyCache_def)
  from invalidation_after_mutation[OF av disjI1[OF c], where ?rt2.0 = rt0 and queryParams = noParams]
  have r: "fst (getExpenseSummary rt0 userA noParams storeAfterCoffee
             (snd (snd (createExpense rt0 userA coffee storeA warmCache))))
       = fst (getExpenseSummary rt0 userA noParams storeAfterCoffee emptyCache)"
    unfolding c by simp
  show ?thesis using av c r fresh by simp
qed

section \<open>Ownership isolation of update and delete\<close>

lemma no_match_other_owner:
  assumes "e \<in> set ds" and "distinct (map oid ds)" and "u \<noteq> userId e"
  shows "find (byIdAndUserId (oid e) u) ds = None"
proof -
  have "\<not> byIdAndUserId (oid e) u x" if "x \<in> set ds" for x
  proof
    assume m: "byIdAndUserId (oid e) u x"
    then have "oid x = oid e" by (simp add: byIdAndUserId_def)
    with assms(1,2) that have "x = e"
      by (meson distinct_map inj_onD)
    with m assms(3) show False by (simp add: byIdAndUserId_def)
  qed
  then show ?thesis by (simp add: find_None_iff_not)
qed

lemma no_match_absent:
  "find (byIdAndUserId (oid e) u) (filter (\<lambda>x. oid x \<noteq> oid e) ds) = None"
  by (auto simp: find_None_iff_not byIdAndUserId_def)

text \<open>
  C3. Let \<open>e\<close> be an expense of the collection (identifiers unique, store reachable) and
  let \<open>ident\<close> be a string naming its identifier. For every user string \<open>B\<close> that does not
  name the owner of \<open>e\<close>, \<open>updateByIdAndUserId\<close> returns null and \<open>deleteByIdAndUserId\<close>
  returns false, the collection is left as it was, and both answers are the ones given
  when no document has that identifier at all.
\<close>

theorem ownership_isolation:
  assumes "e \<in> set (docs st)" and "distinct (map oid (docs st))" and "online st"
    and "map toLowerHex ident = oid e" and "map toLowerHex B \<noteq> userId e"
  shows "updateByIdAndUserId now ident B updates st = (Inr None, st)
       \<and> deleteByIdAndUserId ident B st = (Inr False, st)
       \<and> fst (updateByIdAndUserId now ident B updates
                (st\<lparr>docs := filter (\<lambda>x. oid x \<noteq> oid e) (docs st)\<rparr>)) = Inr None
       \<and> fst (deleteByIdAndUserId ident B
                (st\<lparr>docs := filter (\<lambda>x. oid x \<noteq> oid e) (docs st)\<rparr>)) = Inr False"
  using assms no_match_other_owner[of e "docs st" "map toLowerHex B"]
    no_match_absent[of e "map toLowerHex B" "docs st"]
  by (simp add: updateByIdAndUserId_def deleteByIdAndUserId_def newObjectId_def
      mongo_findOneAndUpdate_def mongo_deleteOne_def wrapAll_def)

theorem ownership_isolation_witness:
  "exA \<in> set (docs storeA) \<and> distinct (map oid (docs storeA)) \<and> online storeA
   \<and> map toLowerHex ''65A000000000000000000001'' = oid exA
   \<and> map toLowerHex userB \<noteq> userId exA
   \<and> updateByIdAndUserId 2000 ''65A000000000000000000001'' userB titleUpdate storeA = (Inr None, storeA)
   \<and> deleteByIdAndUserId ''65A000000000000000000001'' userB storeA = (Inr False, storeA)"
  using ownership_isolation[of exA storeA "''65A000000000000000000001''" userB 2000 titleUpdate]
  by (simp add: storeA_def exA_def userB_def toLowerHex_def)

section \<open>Pagination\<close>

lemma filter_same_key_singleton:
  assumes "distinct (map f xs)" and "k \<in> set xs"
  shows "filter (\<lambda>x. f k = f x) xs = [k]"
  using assms
proof (induction xs)
  case Nil
  then show ?case by simp
next
  case (Cons x xs)
  show ?case
  proof (cases "k = x")
    case True
    have "\<forall>y\<in>set xs. f x \<noteq> f y" using Cons.prems(1) by auto
    then have "filter (\<lambda>y. f x = f y) xs = []" by (simp add: filter_empty_conv)
    with True show ?thesis by simp
  next
    case False
    with Cons.prems have kin: "k \<in> set xs" and "f x \<notin> f ` set xs" by auto
    then have "f k \<noteq> f x" by (metis imageI)
    with Cons.IH[OF _ kin] Cons.prems(1) show ?thesis by simp
  qed
qed

lemma sort_key_arrangement:
  assumes "mset ys = mset xs" and "distinct (map f xs)"
  shows "sort_key f ys = sort_key f xs"
proof (rule properties_for_sort_key)
  show "mset (sort_key f xs) = mset ys" using assms(1) by simp
  show "sorted (map f (sort_key f xs))" by simp
  fix k assume "k \<in> set (sort_key f xs)"
  then have kx: "k \<in> set xs" by simp
  then have ky: "k \<in> set ys" using assms(1) by (metis mset_eq_setD)
  have "mset (map f ys) = mset (map f xs)" using assms(1) by simp
  then have dy: "distinct (map f ys)" using assms(2) by (metis mset_eq_imp_distinct_iff)
  have ds: "distinct (map f (sort_key f xs))"
    using assms(2) by (metis distinct_map distinct_sort set_sort)
  show "filter (\<lambda>x. f k = f x) (sort_key f xs) = filter (\<lambda>x. f k = f x) ys"
    using filter_same_key_singleton[OF dy ky] filter_same_key_singleton[OF ds] kx by simp
qed

lemma sortNewestFirst_arrangement:
  assumes "mset ys = mset xs" and "distinct (map createdAt xs)"
  shows "sortNewestFirst ys = sortNewestFirst xs"
proof -
  have "distinct (map (\<lambda>e. - createdAt e) xs)"
    using assms(2) by (simp add: distinct_map inj_on_def)
  then show ?thesis
    unfolding sortNewestFirst_def using assms(1) by (rule sort_key_arrangement[rotated])
qed

lemma sortNewestFirst_strict:
  assumes "distinct (map createdAt xs)"
  shows "sorted_wrt (\<lambda>a b. createdAt b < createdAt a) (sortNewestFirst xs)"
proof -
  let ?S = "sortNewestFirst xs"
  let ?key = "\<lambda>e. - createdAt e"
  have s: "sorted (map ?key ?S)" by (simp add: sortNewestFirst_def)
  have "mset ?S = mset xs" by (simp add: sortNewestFirst_def)
  then have "mset (map ?key ?S) = mset (map ?key xs)" by simp
  moreover have "distinct (map ?key xs)"
    using assms by (simp add: distinct_map inj_on_def)
  ultimately have d: "distinct (map ?key ?S)" by (metis mset_eq_imp_distinct_iff)
  from s d have "sorted_wrt (<) (map ?key ?S)" by (simp add: strict_sorted_iff)
  then show ?thesis by (simp add: sorted_wrt_map)
qed

lemma findWithFilters_page:
  assumes "online st" and "0 \<le> k" and "0 < L"
  shows "findWithFilters (f\<lparr>f_limit := Some (Num L), f_offset := Some (Num k)\<rparr>) st
         = Inr (take (nat L) (drop (nat k) (sortNewestFirst (filter (matches (buildQuery f)) (docs st)))),
                length (filter (matches (buildQuery f)) (docs st)))"
  using assms
  by (simp add: findWithFilters_def orDefault_def mongo_findPage_def mongo_countDocuments_def
      wrapAll_def buildQuery_def Let_def)

text \<open>
  C4 (amended). \<open>findWithFilters\<close> orders its page by creation timestamp, newest first,
  and by nothing else: there is no tie-break on the identifier. When the matching
  documents have pairwise distinct creation timestamps, then in whatever order the store
  holds its documents at each of the three queries, page 1 with limit \<open>L\<close> and page 2 with
  limit \<open>L\<close> are disjoint, and page 1 followed by page 2 is page 1 with limit \<open>2 L\<close>
  (\<open>L = 20\<close> in the claim), strictly descending in creation timestamp; the three queries
  report the same total.
\<close>

theorem pagination_determinism:
  assumes "online st1" and "online st2" and "online st3"
    and "mset (docs st2) = mset (docs st1)" and "mset (docs st3) = mset (docs st1)"
    and "distinct (map createdAt (filter (matches (buildQuery f)) (docs st1)))"
    and "0 < L"
  shows "\<exists>p1 p2 n.
           findWithFilters (f\<lparr>f_limit := Some (Num L), f_offset := Some (Num 0)\<rparr>) st1 = Inr (p1, n)
         \<and> findWithFilters (f\<lparr>f_limit := Some (Num L), f_offset := Some (Num L)\<rparr>) st2 = Inr (p2, n)
         \<and> findWithFilters (f\<lparr>f_limit := Some (Num (2 * L)), f_offset := Some (Num 0)\<rparr>) st3
             = Inr (p1 @ p2, n)
         \<and> set p1 \<inter> set p2 = {}
         \<and> sorted_wrt (\<lambda>a b. createdAt b < createdAt a) (p1 @ p2)"
proof -
  let ?q = "buildQuery f"
  let ?M = "filter (matches ?q) (docs st1)"
  let ?S = "sortNewestFirst ?M"
  have m2: "mset (filter (matches ?q) (docs st2)) = mset ?M"
    using assms(4) by (metis mset_filter)
  have m3: "mset (filter (matches ?q) (docs st3)) = mset ?M"
    using assms(5) by (metis mset_filter)
  have s2: "sortNewestFirst (filter (matches ?q) (docs st2)) = ?S"
    using m2 assms(6) by (rule sortNewestFirst_arrangement)
  have s3: "sortNewestFirst (filter (matches ?q) (docs st3)) = ?S"
    using m3 assms(6) by (rule sortNewestFirst_arrangement)
  have n2: "length (filter (matches ?q) (docs st2)) = length ?M"
    using m2 by (metis size_mset)
  have n3: "length (filter (matches ?q) (docs st3)) = length ?M"
    using m3 by (metis size_mset)
  have strict: "sorted_wrt (\<lambda>a b. createdAt b < createdAt a) ?S"
    using assms(6) by (rule sortNewestFirst_strict)
  have dS: "distinct ?S"
    using assms(6) by (simp add: sortNewestFirst_def distinct_map)
  have p1: "findWithFilters (f\<lparr>f_limit := Some (Num L), f_offset := Some (Num 0)\<rparr>) st1
            = Inr (take (nat L) ?S, length ?M)"
    using findWithFilters_page[OF assms(1) _ assms(7), of 0 f] by simp
  have p2: "findWithFilters (f\<lparr>f_limit := Some (Num L), f_offset := Some (Num L)\<rparr>) st2
            = Inr (take (nat L) (drop (nat L) ?S), length ?M)"
    using findWithFilters_page[OF assms(2) _ assms(7), of L f] assms(7) s2 n2 by simp
  have "nat (2 * L) = nat L + nat L"
    using assms(7) by linarith
  then have tk: "take (nat (2 * L)) ?S = take (nat L) ?S @ take (nat L) (drop (nat L) ?S)"
    by (simp only: take_add)
  have "findWithFilters (f\<lparr>f_limit := Some (Num (2 * L)), f_offset := Some (Num 0)\<rparr>) st3
            = Inr (take (nat (2 * L)) (drop (nat 0) (sortNewestFirst (filter (matches ?q) (docs st3)))),
                   length (filter (matches ?q) (docs st3)))"
    using assms(3,7) by (intro findWithFilters_page) auto
  then have p3: "findWithFilters (f\<lparr>f_limit := Some (Num (2 * L)), f_offset := Some (Num 0)\<rparr>) st3
            = Inr (take (nat L) ?S @ take (nat L) (drop (nat L) ?S), length ?M)"
    by (simp only: s3 n3 tk nat_0 drop_0)
  have disj: "set (take (nat L) ?S) \<inter> set (take (nat L) (drop (nat L) ?S)) = {}"
  proof -
    have "set (take (nat L) ?S) \<inter> set (drop (nat L) ?S) = {}"
      using dS by (intro set_take_disj_set_drop_if_distinct) auto
    moreover have "set (take (nat L) (drop (nat L) ?S)) \<subseteq> set (drop (nat L) ?S)"
      by (rule set_take_subset)
    ultimately show ?thesis by blast
  qed
  have "sorted_wrt (\<lambda>a b. createdAt b < createdAt a) (take (nat (2 * L)) ?S)"
    using strict by (rule sorted_wrt_take)
  then have srt: "sorted_wrt (\<lambda>a b. createdAt b < createdAt a)
                    (take (nat L) ?S @ take (nat L) (drop (nat L) ?S))"
    by (simp only: tk)
  show ?thesis
    by (intro exI[of _ "take (nat L) ?S"] exI[of _ "take (nat L) (drop (nat L) ?S)"]
        exI[of _ "length ?M"] conjI p1 p2 p3 disj srt)
qed

lemma sort_key_constant:
  assumes "\<forall>x\<in>set xs. f x = c"
  shows "sort_key f xs = xs"
  using assms
proof (induction xs)
  case Nil
  then show ?case by simp
next
  case (Cons x xs)
  then have "sort_key f xs = xs" by simp
  moreover have "insort_key f x xs = x # xs"
    using Cons.prems by (cases xs) auto
  ultimately show ?case by simp
qed

lemma tieDoc_matches: "matches (buildQuery (pageFilter L k)) (tieDoc n)"
  by (simp add: matches_def buildQuery_def pageFilter_def tieDoc_def truthyString_def)

lemma tie_pages:
  assumes "online st" and "set (docs st) \<subseteq> range tieDoc" and "0 \<le> k" and "0 < L"
  shows "findWithFilters (pageFilter L k) st = Inr (take (nat L) (drop (nat k) (docs st)), length (docs st))"
proof -
  have all: "filter (matches (buildQuery (pageFilter L k))) (docs st) = docs st"
    using assms(2) tieDoc_matches by (auto simp: filter_id_conv)
  have "\<forall>x\<in>set (docs st). - createdAt x = - 5000"
    using assms(2) by (auto simp: tieDoc_def)
  then have "sortNewestFirst (docs st) = docs st"
    unfolding sortNewestFirst_def by (rule sort_key_constant)
  with all assms show ?thesis
    by (simp add: findWithFilters_def orDefault_def mongo_findPage_def mongo_countDocuments_def
        wrapAll_def Let_def pageFilter_def)
qed

text \<open>
  The claim as stated fails. Twenty-one matching expenses share one creation timestamp.
  With the store holding them in one order, page 1 (limit 20) is the expenses 1 to 20;
  with the same expenses held in another order, page 2 (limit 20) is the expense 20
  again, where a tie-break on the identifier would give the same order both times. The
  two pages are not disjoint, and page 1 with limit 40 ends in expense 21, not 20.
\<close>

theorem pagination_counterexample:
  "mset (docs tieStoreB) = mset (docs tieStoreA)
   \<and> findWithFilters (pageFilter 20 0) tieStoreA = Inr (map tieDoc [1..<21], 21)
   \<and> findWithFilters (pageFilter 20 20) tieStoreB = Inr ([tieDoc 20], 21)
   \<and> findWithFilters (pageFilter 40 0) tieStoreA = Inr (map tieDoc [1..<22], 21)
   \<and> tieDoc 20 \<in> set (map tieDoc [1..<21]) \<inter> set [tieDoc 20]
   \<and> createdAt (tieDoc 20) = createdAt (tieDoc 21)"
proof -
  have subA: "set (docs tieStoreA) \<subseteq> range tieDoc"
    by (auto simp: tieStoreA_def)
  have subB: "set (docs tieStoreB) \<subseteq> range tieDoc"
    by (auto simp: tieStoreB_def)
  have onA: "online tieStoreA" by (simp add: tieStoreA_def)
  have onB: "online tieStoreB" by (simp add: tieStoreB_def)
  have a: "findWithFilters (pageFilter 20 0) tieStoreA = Inr (map tieDoc [1..<21], 21)"
    using tie_pages[OF onA subA, of 0 20] by (simp add: tieStoreA_def take_map)
  have b: "findWithFilters (pageFilter 20 20) tieStoreB = Inr ([tieDoc 20], 21)"
    using tie_pages[OF onB subB, of 20 20] by (simp add: tieStoreB_def drop_map drop_Cons')
  have c: "findWithFilters (pageFilter 40 0) tieStoreA = Inr (map tieDoc [1..<22], 21)"
    using tie_pages[OF onA subA, of 0 40] by (simp add: tieStoreA_def)
  have "[1..<22] = [1..<21] @ [21::nat]" by (simp add: upt_rec)
  then have d: "mset (docs tieStoreB) = mset (docs tieStoreA)"
    by (simp add: tieStoreA_def tieStoreB_def)
  have e: "tieDoc 20 \<in> set (map tieDoc [1..<21]) \<inter> set [tieDoc 20]" by simp
  have f: "createdAt (tieDoc 20) = createdAt (tieDoc 21)" by (simp add: tieDoc_def)
  show ?thesis by (intro conjI a b c d e f)
qed

lemma stampDoc_matches: "matches (buildQuery (pageFilter L k)) (stampDoc n)"
  by (simp add: matches_def buildQuery_def pageFilter_def stampDoc_def truthyString_def)

lemma stamp_distinct:
  "distinct (map createdAt (filter (matches (buildQuery (pageFilter L k))) (map stampDoc [1..<22])))"
proof -
  have "filter (matches (buildQuery (pageFilter L k))) (map stampDoc [1..<22]) = map stampDoc [1..<22]"
    using stampDoc_matches by (auto simp: filter_id_conv)
  moreover have "map createdAt (map stampDoc [1..<22]) = map int [1..<22]"
    by (simp add: stampDoc_def comp_def)
  ultimately show ?thesis by (simp add: distinct_map inj_on_def del: upt_rec_numeral)
qed

theorem pagination_determinism_witness:
  "online stampStoreA \<and> online stampStoreB
   \<and> mset (docs stampStoreB) = mset (docs stampStoreA)
   \<and> distinct (map createdAt (filter (matches (buildQuery (pageFilter 20 0))) (docs stampStoreA)))
   \<and> (\<exists>p1 p2 n.
         findWithFilters (pageFilter 20 0) stampStoreA = Inr (p1, n)
       \<and> findWithFilters (pageFilter 20 20) stampStoreB = Inr (p2, n)
       \<and> findWithFilters (pageFilter 40 0) stampStoreA = Inr (p1 @ p2, n)
       \<and> set p1 \<inter> set p2 = {}
       \<and> sorted_wrt (\<lambda>a b. createdAt b < createdAt a) (p1 @ p2))"
proof -
  have on: "online stampStoreA" "online stampStoreB"
    by (simp_all add: stampStoreA_def stampStoreB_def)
  have ms: "mset (docs stampStoreB) = mset (docs stampStoreA)"
    by (simp add: stampStoreA_def stampStoreB_def del: upt_rec_numeral)
  have ds: "distinct (map createdAt (filter (matches (buildQuery (pageFilter 20 0))) (docs stampStoreA)))"
    using stamp_distinct[of 20 0] by (simp add: stampStoreA_def del: upt_rec_numeral)
  have upd: "pageFilter 20 0\<lparr>f_limit := Some (Num L), f_offset := Some (Num k)\<rparr> = pageFilter L k" for L k
    by (simp add: pageFilter_def)
  from pagination_determinism[OF on(1) on(2) on(1) ms refl ds, of 20]
  show ?thesis using on ms ds by (simp only: upd) simp
qed

section \<open>The cache round trip of a listing\<close>

lemma jsonify_defined: "jsonify v \<noteq> JUndefined"
  by (cases v) auto

lemma jsonify_idem: "jsonify (jsonify v) = jsonify v"
proof (induction v)
  case (JArr xs)
  then show ?case by (simp add: comp_def)
next
  case (JObj kvs)
  have ih: "jsonify (jsonify (snd kv)) = jsonify (snd kv)" if "kv \<in> set kvs" for kv
    using JObj[of kv "snd kv"] that by (cases kv) simp
  have keep: "filter (\<lambda>kv. snd kv \<noteq> JUndefined) (map (\<lambda>kv. (fst kv, jsonify (snd kv))) ys)
              = map (\<lambda>kv. (fst kv, jsonify (snd kv))) ys" for ys :: "(string \<times> jsval) list"
    by (induction ys) (auto simp: jsonify_defined)
  show ?case using ih by (fastforce simp: keep)
qed simp_all

lemma read_back:
  assumes "available r"
  shows "getCachedExpenses key (cacheExpenses key v r) = jsonify v"
  using assms
  by (simp add: getCachedExpenses_def cacheExpenses_def setJson_def redis_set_def getJson_def
      redis_get_def)

lemma listing_truthy: "truthy (jsonify (listingObject es n qp))"
  by (simp add: listingObject_def)

text \<open>
  C5. With the cache answering, writing a value with \<open>setJson\<close> and reading it back with
  \<open>getJson\<close> gives the JSON document of the value. So when \<open>getExpenses\<close> misses, reads
  the Repository and populates the cache, the same request asked again, with no mutation
  in between, is served from the cache, and what it returns has the same JSON document,
  that is, serialises to the same bytes, as the \<open>{expenses, total, page, limit}\<close> of a fresh
  uncached read through the Repository for the same filter. (Before serialisation the
  cached value holds ISO strings where the fresh one holds dates, and lacks the
  properties whose value is undefined.)
\<close>

theorem cache_round_trip:
  assumes "available r" and "isValid user"
    and "findWithFilters (filtersOf rt (map toLowerHex user) queryParams) st = Inr (expenses, n)"
    and "\<not> truthy (getCachedExpenses
                    (getExpensesCacheKey user (filtersOf rt (map toLowerHex user) queryParams)) r)"
  shows "getCachedExpenses key (cacheExpenses key v r) = jsonify v
       \<and> jsonify (jsonify v) = jsonify v
       \<and> fst (getExpenses rt user queryParams st r) = Inr (listingObject expenses n queryParams)
       \<and> fst (getExpenses rt user queryParams st (snd (getExpenses rt user queryParams st r)))
           = Inr (jsonify (listingObject expenses n queryParams))
       \<and> fst (getExpenses rt user queryParams st (r\<lparr>available := False\<rparr>))
           = Inr (listingObject expenses n queryParams)
       \<and> (\<exists>fresh cached.
             fst (getExpenses rt user queryParams st (r\<lparr>available := False\<rparr>)) = Inr fresh
           \<and> fst (getExpenses rt user queryParams st (snd (getExpenses rt user queryParams st r)))
               = Inr cached
           \<and> jsonify cached = jsonify fresh)"
proof -
  let ?f = "filtersOf rt (map toLowerHex user) queryParams"
  let ?k = "getExpensesCacheKey user ?f"
  let ?fresh = "listingObject expenses n queryParams"
  have first: "getExpenses rt user queryParams st r = (Inr ?fresh, cacheExpenses ?k ?fresh r)"
    using assms(2,3,4) by (simp add: getExpenses_def newObjectId_def Let_def)
  have hit: "getCachedExpenses ?k (cacheExpenses ?k ?fresh r) = jsonify ?fresh"
    using assms(1) by (rule read_back)
  have second: "getExpenses rt user queryParams st (cacheExpenses ?k ?fresh r)
                = (Inr (jsonify ?fresh), cacheExpenses ?k ?fresh r)"
    using assms(2) hit listing_truthy[of expenses n queryParams]
    by (simp add: getExpenses_def newObjectId_def Let_def)
  have down: "getCachedExpenses ?k (r\<lparr>available := False\<rparr>) = JNull"
    by (simp add: getCachedExpenses_def getJson_def redis_get_def)
  have uncached: "fst (getExpenses rt user queryParams st (r\<lparr>available := False\<rparr>)) = Inr ?fresh"
    using assms(2,3) down by (simp add: getExpenses_def newObjectId_def Let_def)
  have same: "\<exists>fresh cached.
             fst (getExpenses rt user queryParams st (r\<lparr>available := False\<rparr>)) = Inr fresh
           \<and> fst (getExpenses rt user queryParams st (snd (getExpenses rt user queryParams st r)))
               = Inr cached
           \<and> jsonify cached = jsonify fresh"
    using first second uncached jsonify_idem[of ?fresh]
    by (intro exI[of _ ?fresh] exI[of _ "jsonify ?fresh"]) simp
  have rest: "getCachedExpenses key (cacheExpenses key v r) = jsonify v
       \<and> jsonify (jsonify v) = jsonify v
       \<and> fst (getExpenses rt user queryParams st r) = Inr ?fresh
       \<and> fst (getExpenses rt user queryParams st (snd (getExpenses rt user queryParams st r)))
           = Inr (jsonify ?fresh)
       \<and> fst (getExpenses rt user queryParams st (r\<lparr>available := False\<rparr>)) = Inr ?fresh"
    using read_back[OF assms(1), of key v] jsonify_idem[of v] first second uncached
    by simp
  show ?thesis
    using rest same by blast
qed

theorem cache_round_trip_witness:
  "available emptyCache \<and> isValid userA
   \<and> findWithFilters (filtersOf rt0 (map toLowerHex userA) noParams) threeStore
       = Inr ([docs threeStore ! 3, docs threeStore ! 2, docs threeStore ! 0], 3)
   \<and> fst (getExpenses rt0 userA noParams threeStore emptyCache)
       = Inr (listingObject [docs threeStore ! 3, docs threeStore ! 2, docs threeStore ! 0] 3 noParams)
   \<and> fst (getExpenses rt0 userA noParams threeStore
             (snd (getExpenses rt0 userA noParams threeStore emptyCache)))
       = Inr (jsonify (listingObject [docs threeStore ! 3, docs threeStore ! 2, docs threeStore ! 0] 3
                         noParams))
   \<and> jsonify (transformExpenseToResponse (docs threeStore ! 0))
       = JObj [(''id'', JStr ''65a000000000000000000011''),
               (''userId'', JStr ''aaaaaaaaaaaaaaaaaaaaaaaa''),
               (''title'', JStr ''Bread''), (''amount'', JNum 10),
               (''category'', JStr ''Groceries''),
               (''createdAt'', JStr ''1970-01-01T00:00:01.000Z''),
               (''updatedAt'', JStr ''1970-01-01T00:00:01.000Z'')]"
proof -
  have av: "available emptyCache" by (simp add: emptyCache_def)
  have v: "isValid userA" by (simp add: userA_def isValid_def isHexDigit_def)
  have p1: "parseInt ''1'' = Num 1" by (rule parseInt_1)
  have p20: "parseInt ''20'' = Num 20" by (rule parseInt_20)
  have f: "filtersOf rt0 (map toLowerHex userA) noParams
           = \<lparr>f_userId = ''aaaaaaaaaaaaaaaaaaaaaaaa'', f_startDate = None, f_endDate = None,
              f_category = None, f_limit = Some (Num 20), f_offset = Some (Num 0)\<rparr>"
    by (simp add: filtersOf_def noParams_def orElse_def p1 p20 jsSub_def jsMul_def roundInt_small resolveRange_def
        userA_def toLowerHex_def)
  have fw: "findWithFilters (filtersOf rt0 (map toLowerHex userA) noParams) threeStore
       = Inr ([docs threeStore ! 3, docs threeStore ! 2, docs threeStore ! 0], 3)"
    unfolding f
    by (simp add: findWithFilters_def buildQuery_def orDefault_def mongo_findPage_def
        mongo_countDocuments_def wrapAll_def Let_def threeStore_def matches_def truthyString_def
        sortNewestFirst_def)
  have miss: "\<not> truthy (getCachedExpenses k emptyCache)" for k
    by (simp add: getCachedExpenses_def getJson_def redis_get_def emptyCache_def)
  note inst = cache_round_trip[OF av v fw miss, where key = "''k''" and v = JNull]
  have iso: "toISOString 1000 = ''1970-01-01T00:00:01.000Z''" by code_simp
  have j: "jsonify (transformExpenseToResponse (docs threeStore ! 0))
       = JObj [(''id'', JStr ''65a000000000000000000011''),
               (''userId'', JStr ''aaaaaaaaaaaaaaaaaaaaaaaa''),
               (''title'', JStr ''Bread''), (''amount'', JNum 10),
               (''category'', JStr ''Groceries''),
               (''createdAt'', JStr ''1970-01-01T00:00:01.000Z''),
               (''updatedAt'', JStr ''1970-01-01T00:00:01.000Z'')]"
    by (simp add: transformExpenseToResponse_def threeStore_def iso)
  show ?thesis using inst av v fw j by simp
qed

section \<open>Cache keys\<close>

lemma filterString_nonempty: "filterString f \<noteq> []"
  by (simp add: filterString_def)

lemma getSummary_valid_online:
  assumes "isValid user" and "online st"
  shows "\<exists>s. getSummary user sd ed st = Inr s"
  using assms
  by (auto simp: getSummary_def newObjectId_def mongo_aggregate_def wrapAll_def split: list.splits)

text \<open>
  C6. The listing cache key is \<open>expenses:<userId>\<close>, a colon, and the base64 encoding of
  the JSON text of the object with the properties startDate, endDate, category, limit and
  offset, in that order (a property whose value is undefined is left out by
  \<open>JSON.stringify\<close>); it depends on no other field of the filter, so equal values of the
  five fields give the same key. The summary cache key is \<open>expense_summary:<userId>\<close>, a
  colon and the period token: the entry that \<open>getExpenseSummary\<close> writes is under that key
  whatever the start and end dates of the request are.
\<close>

theorem cache_key_derivation:
  assumes "isValid user" and "online st" and "qp_period queryParams = Some p" and "p \<noteq> []"
  shows "getExpensesCacheKey user filters = ''expenses:'' @ user @ '':'' @ base64 (filterString filters)
       \<and> filterString \<lparr>f_userId = u, f_startDate = Some s, f_endDate = Some e, f_category = Some c,
                        f_limit = Some l, f_offset = Some k\<rparr>
           = ''{'' @ jsonQuote ''startDate'' @ '':'' @ jsonQuote (toISOString s)
             @ '','' @ jsonQuote ''endDate'' @ '':'' @ jsonQuote (toISOString e)
             @ '','' @ jsonQuote ''category'' @ '':'' @ jsonQuote c
             @ '','' @ jsonQuote ''limit'' @ '':'' @ jsonNumber l
             @ '','' @ jsonQuote ''offset'' @ '':'' @ jsonNumber k @ ''}''
       \<and> filterString \<lparr>f_userId = u, f_startDate = None, f_endDate = None, f_category = None,
                        f_limit = Some l, f_offset = Some k\<rparr>
           = ''{'' @ jsonQuote ''limit'' @ '':'' @ jsonNumber l
             @ '','' @ jsonQuote ''offset'' @ '':'' @ jsonNumber k @ ''}''
       \<and> getExpensesCacheKey user (filters\<lparr>f_userId := u\<rparr>) = getExpensesCacheKey user filters
       \<and> getExpenseSummaryCacheKey user (qp_period queryParams) = ''expense_summary:'' @ user @ '':'' @ p
       \<and> map fst (entries (snd (getExpenseSummary rt user queryParams st \<lparr>available = True, entries = []\<rparr>)))
           = [''expense_summary:'' @ user @ '':'' @ p]
       \<and> map fst (entries (snd (getExpenseSummary rt user
                                   (queryParams\<lparr>qp_startDate := a, qp_endDate := b\<rparr>) st
                                   \<lparr>available = True, entries = []\<rparr>)))
           = [''expense_summary:'' @ user @ '':'' @ p]"
proof -
  have k1: "getExpensesCacheKey user filters = ''expenses:'' @ user @ '':'' @ base64 (filterString filters)"
    by (simp add: getExpensesCacheKey_def RedisClient_getExpensesCacheKey_def filterString_nonempty)
  have k2: "filterString \<lparr>f_userId = u, f_startDate = Some s, f_endDate = Some e, f_category = Some c,
                        f_limit = Some l, f_offset = Some k\<rparr>
           = ''{'' @ jsonQuote ''startDate'' @ '':'' @ jsonQuote (toISOString s)
             @ '','' @ jsonQuote ''endDate'' @ '':'' @ jsonQuote (toISOString e)
             @ '','' @ jsonQuote ''category'' @ '':'' @ jsonQuote c
             @ '','' @ jsonQuote ''limit'' @ '':'' @ jsonNumber l
             @ '','' @ jsonQuote ''offset'' @ '':'' @ jsonNumber k @ ''}''"
    by (simp add: filterString_def jsonProperty_def)
  have k2b: "filterString \<lparr>f_userId = u, f_startDate = None, f_endDate = None, f_category = None,
                        f_limit = Some l, f_offset = Some k\<rparr>
           = ''{'' @ jsonQuote ''limit'' @ '':'' @ jsonNumber l
             @ '','' @ jsonQuote ''offset'' @ '':'' @ jsonNumber k @ ''}''"
    by (simp add: filterString_def jsonProperty_def)
  have k3: "getExpensesCacheKey user (filters\<lparr>f_userId := u\<rparr>) = getExpensesCacheKey user filters"
    by (simp add: getExpensesCacheKey_def filterString_def)
  have k4: "getExpenseSummaryCacheKey user (qp_period queryParams) = ''expense_summary:'' @ user @ '':'' @ p"
    using assms(3,4) by (simp add: getExpenseSummaryCacheKey_def)
  have pop: "map fst (entries (snd (getExpenseSummary rt user q st \<lparr>available = True, entries = []\<rparr>)))
           = [''expense_summary:'' @ user @ '':'' @ p]" if "qp_period q = Some p" for q
  proof -
    obtain sm where "getSummary user (map_option fst (resolveRange rt q))
                       (map_option snd (resolveRange rt q)) st = Inr sm"
      using getSummary_valid_online[OF assms(1,2)] by blast
    then show ?thesis
      using that assms(4)
      by (simp add: getExpenseSummary_def getCachedSummary_def getJson_def redis_get_def Let_def
          cacheSummary_def setJson_def redis_set_def getExpenseSummaryCacheKey_def)
  qed
  have k5: "map fst (entries (snd (getExpenseSummary rt user queryParams st \<lparr>available = True, entries = []\<rparr>)))
           = [''expense_summary:'' @ user @ '':'' @ p]"
    using assms(3) by (rule pop)
  have k6: "map fst (entries (snd (getExpenseSummary rt user
                                   (queryParams\<lparr>qp_startDate := a, qp_endDate := b\<rparr>) st
                                   \<lparr>available = True, entries = []\<rparr>)))
           = [''expense_summary:'' @ user @ '':'' @ p]"
    using assms(3) by (intro pop) simp
  show ?thesis by (intro conjI k1 k2 k2b k3 k4 k5 k6)
qed

theorem cache_key_derivation_witness:
  "isValid userA \<and> online threeStore \<and> qp_period customJanuary = Some ''custom''
   \<and> getExpensesCacheKey userA (filtersOf rt0 userA pageTwoJanuary)
       = ''expenses:aaaaaaaaaaaaaaaaaaaaaaaa:eyJzdGFydERhdGUiOiIyMDI0LTAxLTAxVDAwOjAwOjAwLjAwMFoiLCJlbmREYXRlIjoiMjAyNC0wMS0zMVQyMzo1OTo1OS45OTlaIiwiY2F0ZWdvcnkiOiJHcm9jZXJpZXMiLCJsaW1pdCI6MjAsIm9mZnNldCI6MjB9''
   \<and> getExpensesCacheKey userA (filtersOf rt0 userA noParams)
       = ''expenses:aaaaaaaaaaaaaaaaaaaaaaaa:eyJsaW1pdCI6MjAsIm9mZnNldCI6MH0=''
   \<and> map fst (entries (snd (getExpenseSummary rt0 userA customJanuary threeStore emptyCache)))
       = [''expense_summary:aaaaaaaaaaaaaaaaaaaaaaaa:custom'']
   \<and> map fst (entries (snd (getExpenseSummary rt0 userA customNoBounds threeStore emptyCache)))
       = [''expense_summary:aaaaaaaaaaaaaaaaaaaaaaaa:custom'']"
proof -
  have v: "isValid userA" by (simp add: userA_def isValid_def isHexDigit_def)
  have on: "online threeStore" by (simp add: threeStore_def)
  have p: "qp_period customJanuary = Some ''custom''"
    by (simp add: customJanuary_def noParams_def)
  have ne: "''custom'' \<noteq> []" by simp
  note inst = cache_key_derivation[OF v on p ne, where rt = rt0]
  have f1: "filtersOf rt0 userA pageTwoJanuary
       = \<lparr>f_userId = userA, f_startDate = Some 1704067200000, f_endDate = Some 1706745599999,
          f_category = Some ''Groceries'', f_limit = Some (Num 20), f_offset = Some (Num 20)\<rparr>"
    by (simp add: filtersOf_def pageTwoJanuary_def customJanuary_def noParams_def orElse_def
        parseInt_2 parseInt_20 jsSub_def jsMul_def roundInt_small resolveRange_def getDateRange_def
        getCustomRange_def parseDate_def rt0_def startOfDay_def endOfDay_def utcTime_def
        localTime_def msPerDay_def Let_def)
  have f2: "filtersOf rt0 userA noParams
       = \<lparr>f_userId = userA, f_startDate = None, f_endDate = None,
          f_category = None, f_limit = Some (Num 20), f_offset = Some (Num 0)\<rparr>"
    by (simp add: filtersOf_def noParams_def orElse_def parseInt_1 parseInt_20 jsSub_def jsMul_def
        roundInt_small resolveRange_def Let_def)
  have b1: "base64 (filterString (filtersOf rt0 userA pageTwoJanuary))
       = ''eyJzdGFydERhdGUiOiIyMDI0LTAxLTAxVDAwOjAwOjAwLjAwMFoiLCJlbmREYXRlIjoiMjAyNC0wMS0zMVQyMzo1OTo1OS45OTlaIiwiY2F0ZWdvcnkiOiJHcm9jZXJpZXMiLCJsaW1pdCI6MjAsIm9mZnNldCI6MjB9''"
    unfolding f1 by code_simp
  have b2: "base64 (filterString (filtersOf rt0 userA noParams)) = ''eyJsaW1pdCI6MjAsIm9mZnNldCI6MH0=''"
    unfolding f2 by code_simp
  have k1: "getExpensesCacheKey userA (filtersOf rt0 userA pageTwoJanuary)
       = ''expenses:aaaaaaaaaaaaaaaaaaaaaaaa:eyJzdGFydERhdGUiOiIyMDI0LTAxLTAxVDAwOjAwOjAwLjAwMFoiLCJlbmREYXRlIjoiMjAyNC0wMS0zMVQyMzo1OTo1OS45OTlaIiwiY2F0ZWdvcnkiOiJHcm9jZXJpZXMiLCJsaW1pdCI6MjAsIm9mZnNldCI6MjB9''"
    using inst[where filters = "filtersOf rt0 userA pageTwoJanuary", THEN conjunct1]
    by (simp only: b1) (simp add: userA_def)
  have k2: "getExpensesCacheKey userA (filtersOf rt0 userA noParams)
       = ''expenses:aaaaaaaaaaaaaaaaaaaaaaaa:eyJsaW1pdCI6MjAsIm9mZnNldCI6MH0=''"
    using inst[where filters = "filtersOf rt0 userA noParams", THEN conjunct1]
    by (simp only: b2) (simp add: userA_def)
  have nb: "customNoBounds = customJanuary\<lparr>qp_startDate := None, qp_endDate := None\<rparr>"
    by (simp add: customNoBounds_def customJanuary_def noParams_def)
  have k3: "map fst (entries (snd (getExpenseSummary rt0 userA customJanuary threeStore emptyCache)))
       = [''expense_summary:aaaaaaaaaaaaaaaaaaaaaaaa:custom'']"
    using inst[where a = None and b = None] by (simp add: emptyCache_def userA_def)
  have k4: "map fst (entries (snd (getExpenseSummary rt0 userA customNoBounds threeStore emptyCache)))
       = [''expense_summary:aaaaaaaaaaaaaaaaaaaaaaaa:custom'']"
    using inst[where a = None and b = None] by (simp add: emptyCache_def userA_def nb)
  show ?thesis by (intro conjI v on p k1 k2 k3 k4)
qed

section \<open>Requests with a failing cache\<close>

lemma down_read: "\<not> available r \<Longrightarrow> getCachedExpenses k r = JNull \<and> getCachedSummary k r = JNull"
  by (simp add: getCachedExpenses_def getCachedSummary_def getJson_def redis_get_def)

lemma down_write: "\<not> available r \<Longrightarrow> cacheExpenses k v r = r \<and> cacheSummary k v r = r"
  by (simp add: cacheExpenses_def cacheSummary_def setJson_def redis_set_def)

lemma down_invalidate: "\<not> available r \<Longrightarrow> invalidateUserCaches user r = r"
  by (simp add: invalidateUserCaches_def deletePattern_def)

lemma empty_read: "getCachedExpenses k emptyCache = JNull \<and> getCachedSummary k emptyCache = JNull"
  by (simp add: getCachedExpenses_def getCachedSummary_def getJson_def redis_get_def emptyCache_def)

text \<open>
  C7. When every cache operation fails, a listing, a summary and each of the three
  mutations return what they return with a working cache that holds no entry for the
  request (for the mutations: with any cache at all), and the store ends in the same
  state: the failed read is a miss, the failed write and the failed invalidation change
  nothing. In particular, whenever the Repository operation succeeds the request
  succeeds, with the Repository's result.
\<close>

theorem cache_failure_tolerated:
  assumes "\<not> available r"
  shows "getExpenses rt user queryParams st r
           = (fst (getExpenses rt user queryParams st emptyCache), r)
       \<and> getExpenseSummary rt user queryParams st r
           = (fst (getExpenseSummary rt user queryParams st emptyCache), r)
       \<and> createExpense rt user expenseData st r
           = (fst (createExpense rt user expenseData st r'),
              fst (snd (createExpense rt user expenseData st r')), r)
       \<and> updateExpense rt expenseId user updates st r
           = (fst (updateExpense rt expenseId user updates st r'),
              fst (snd (updateExpense rt expenseId user updates st r')), r)
       \<and> deleteExpense expenseId user st r
           = (fst (deleteExpense expenseId user st r'),
              fst (snd (deleteExpense expenseId user st r')), r)
       \<and> (isValid user
            \<and> findWithFilters (filtersOf rt (map toLowerHex user) queryParams) st = Inr (expenses, n) \<longrightarrow>
            fst (getExpenses rt user queryParams st r) = Inr (listingObject expenses n queryParams))
       \<and> (getSummary user (map_option fst (resolveRange rt queryParams))
                           (map_option snd (resolveRange rt queryParams)) st = Inr summary \<longrightarrow>
            fst (getExpenseSummary rt user queryParams st r) = Inr (summaryObject summary))
       \<and> (create (memoryCollection (rt_newId rt)) (rt_now rt) user expenseData st = (Inr e, st') \<longrightarrow>
            createExpense rt user expenseData st r = (Inr (transformExpenseToResponse e), st', r))
       \<and> (updateByIdAndUserId (rt_now rt) expenseId user updates st = (Inr (Some e), st') \<longrightarrow>
            updateExpense rt expenseId user updates st r = (Inr (transformExpenseToResponse e), st', r))
       \<and> (deleteByIdAndUserId expenseId user st = (Inr True, st') \<longrightarrow>
            deleteExpense expenseId user st r = (Inr (), st', r))"
proof -
  note dr = down_read[OF assms] and dw = down_write[OF assms] and di = down_invalidate[OF assms]
  have g1: "getExpenses rt user queryParams st r
           = (fst (getExpenses rt user queryParams st emptyCache), r)"
    by (simp add: getExpenses_def dr dw empty_read Let_def split: sum.splits prod.splits)
  have g2: "getExpenseSummary rt user queryParams st r
           = (fst (getExpenseSummary rt user queryParams st emptyCache), r)"
    by (simp add: getExpenseSummary_def dr dw empty_read Let_def split: sum.splits)
  have m1: "createExpense rt user expenseData st r
           = (fst (createExpense rt user expenseData st r'),
              fst (snd (createExpense rt user expenseData st r')), r)"
    by (simp add: createExpense_def di split: sum.splits prod.splits)
  have m2: "updateExpense rt expenseId user updates st r
           = (fst (updateExpense rt expenseId user updates st r'),
              fst (snd (updateExpense rt expenseId user updates st r')), r)"
    by (simp add: updateExpense_def di split: sum.splits prod.splits option.splits)
  have m3: "deleteExpense expenseId user st r
           = (fst (deleteExpense expenseId user st r'),
              fst (snd (deleteExpense expenseId user st r')), r)"
    by (simp add: deleteExpense_def di split: sum.splits prod.splits)
  have s1: "isValid user
            \<and> findWithFilters (filtersOf rt (map toLowerHex user) queryParams) st = Inr (expenses, n) \<longrightarrow>
            fst (getExpenses rt user queryParams st r) = Inr (listingObject expenses n queryParams)"
    by (simp add: getExpenses_def newObjectId_def dr dw Let_def)
  have s2: "getSummary user (map_option fst (resolveRange rt queryParams))
                           (map_option snd (resolveRange rt queryParams)) st = Inr summary \<longrightarrow>
            fst (getExpenseSummary rt user queryParams st r) = Inr (summaryObject summary)"
    by (simp add: getExpenseSummary_def dr dw Let_def)
  have s3: "create (memoryCollection (rt_newId rt)) (rt_now rt) user expenseData st = (Inr e, st') \<longrightarrow>
            createExpense rt user expenseData st r = (Inr (transformExpenseToResponse e), st', r)"
    by (simp add: createExpense_def di)
  have s4: "updateByIdAndUserId (rt_now rt) expenseId user updates st = (Inr (Some e), st') \<longrightarrow>
            updateExpense rt expenseId user updates st r = (Inr (transformExpenseToResponse e), st', r)"
    by (simp add: updateExpense_def di)
  have s5: "deleteByIdAndUserId expenseId user st = (Inr True, st') \<longrightarrow>
            deleteExpense expenseId user st r = (Inr (), st', r)"
    by (simp add: deleteExpense_def di)
  show ?thesis by (intro conjI g1 g2 m1 m2 m3 s1 s2 s3 s4 s5)
qed

theorem cache_failure_tolerated_witness:
  "\<not> available downCache
   \<and> fst (getExpenses rt0 userA noParams storeA downCache)
       = Inr (listingObject [exA] 1 noParams)
   \<and> getExpenses rt0 userA noParams storeA downCache
       = (fst (getExpenses rt0 userA noParams storeA emptyCache), downCache)
   \<and> createExpense rt0 userA coffee storeA downCache
       = (Inr (transformExpenseToResponse
                 \<lparr>oid = ''65a000000000000000000002'', userId = ''aaaaaaaaaaaaaaaaaaaaaaaa'',
                  title = ''Coffee'', description = None, amount = 100, category = ''Groceries'',
                  createdAt = 10000, updatedAt = 10000\<rparr>),
          \<lparr>docs = [exA,
                   \<lparr>oid = ''65a000000000000000000002'', userId = ''aaaaaaaaaaaaaaaaaaaaaaaa'',
                    title = ''Coffee'', description = None, amount = 100, category = ''Groceries'',
                    createdAt = 10000, updatedAt = 10000\<rparr>],
           online = True\<rparr>,
          downCache)
   \<and> deleteExpense ''65a000000000000000000001'' userA storeA downCache
       = (Inr (), \<lparr>docs = [], online = True\<rparr>, downCache)"
proof -
  have d: "\<not> available downCache" by (simp add: downCache_def)
  have fw: "findWithFilters (filtersOf rt0 (map toLowerHex userA) noParams) storeA = Inr ([exA], 1)"
    unfolding default_filters
    by (simp add: findWithFilters_def buildQuery_def orDefault_def mongo_findPage_def
        mongo_countDocuments_def wrapAll_def Let_def storeA_def exA_def matches_def truthyString_def
        sortNewestFirst_def)
  note inst = cache_failure_tolerated[OF d, where rt = rt0 and user = userA and st = storeA
      and expenseData = coffee and r' = emptyCache]
  have a: "fst (getExpenses rt0 userA noParams storeA downCache) = Inr (listingObject [exA] 1 noParams)"
    using inst[where queryParams = noParams and expenses = "[exA]" and n = 1] userA_valid fw
    by blast
  have b: "getExpenses rt0 userA noParams storeA downCache
       = (fst (getExpenses rt0 userA noParams storeA emptyCache), downCache)"
    using inst[where queryParams = noParams] by blast
  have c: "createExpense rt0 userA coffee storeA downCache
       = (Inr (transformExpenseToResponse
                 \<lparr>oid = ''65a000000000000000000002'', userId = ''aaaaaaaaaaaaaaaaaaaaaaaa'',
                  title = ''Coffee'', description = None, amount = 100, category = ''Groceries'',
                  createdAt = 10000, updatedAt = 10000\<rparr>),
          \<lparr>docs = [exA,
                   \<lparr>oid = ''65a000000000000000000002'', userId = ''aaaaaaaaaaaaaaaaaaaaaaaa'',
                    title = ''Coffee'', description = None, amount = 100, category = ''Groceries'',
                    createdAt = 10000, updatedAt = 10000\<rparr>],
           online = True\<rparr>,
          downCache)"
    using inst create_coffee by blast
  have e: "deleteExpense ''65a000000000000000000001'' userA storeA downCache
       = (Inr (), \<lparr>docs = [], online = True\<rparr>, downCache)"
    using inst[where expenseId = "''65a000000000000000000001''"] delete_exA by blast
  show ?thesis by (intro conjI d a b c e)
qed

section \<open>Resolution of the custom date range\<close>

lemma getDateRange_custom:
  "getDateRange rt (Some ''custom'') s e =
     (if s = None \<or> s = Some [] \<or> e = None \<or> e = Some [] then None
      else (case (rt_parse rt (the s), rt_parse rt (the e)) of
              (Some x, Some y) \<Rightarrow>
                 if y < x then None else Some (startOfDay rt x, endOfDay rt y)
            | _ \<Rightarrow> None))"
  by (auto simp: getDateRange_def orElse_def getCustomRange_def parseDate_def
      split: option.splits)

lemma day_of_local:
  "\<exists>l. l mod msPerDay = 0 \<and> l \<le> localTime rt t \<and> localTime rt t < l + msPerDay
       \<and> startOfDay rt t = utcTime rt l \<and> endOfDay rt t = utcTime rt (l + (msPerDay - 1))"
proof -
  have pos: "(0::int) < msPerDay" by (simp add: msPerDay_def)
  let ?l = "localTime rt t div msPerDay * msPerDay"
  have eq: "?l = localTime rt t - localTime rt t mod msPerDay"
    by (simp add: algebra_simps minus_mod_eq_div_mult[symmetric])
  have rng: "0 \<le> localTime rt t mod msPerDay" "localTime rt t mod msPerDay < msPerDay"
    using pos by simp_all
  have "?l mod msPerDay = 0" by simp
  moreover have "?l \<le> localTime rt t \<and> localTime rt t < ?l + msPerDay"
    using eq rng by simp
  ultimately show ?thesis
    by (intro exI[of _ ?l]) (simp add: startOfDay_def endOfDay_def)
qed

lemma day_fixed_offset:
  assumes "\<forall>l. rt_offsetAt rt l = c \<and> rt_offsetOfLocal rt l = c"
  shows "startOfDay rt t \<le> t \<and> t < startOfDay rt t + msPerDay
       \<and> (startOfDay rt t + c) mod msPerDay = 0
       \<and> endOfDay rt t = startOfDay rt t + msPerDay - 1"
proof -
  have pos: "(0::int) < msPerDay" by (simp add: msPerDay_def)
  have eq: "(t + c) div msPerDay * msPerDay = (t + c) - (t + c) mod msPerDay"
    by (simp add: algebra_simps minus_mod_eq_div_mult[symmetric])
  have rng: "0 \<le> (t + c) mod msPerDay" "(t + c) mod msPerDay < msPerDay"
    using pos by simp_all
  have s: "startOfDay rt t = (t + c) div msPerDay * msPerDay - c"
    using assms by (simp add: startOfDay_def utcTime_def localTime_def)
  have e: "endOfDay rt t = (t + c) div msPerDay * msPerDay + (msPerDay - 1) - c"
    using assms by (simp add: endOfDay_def utcTime_def localTime_def)
  have "(startOfDay rt t + c) mod msPerDay = 0"
    by (simp add: s)
  moreover have "startOfDay rt t \<le> t \<and> t < startOfDay rt t + msPerDay"
    using eq rng by (simp add: s)
  moreover have "endOfDay rt t = startOfDay rt t + msPerDay - 1"
    by (simp add: s e)
  ultimately show ?thesis by simp
qed

lemma custom_unresolved:
  assumes "qp_period queryParams = Some ''custom''"
    and "orElse (qp_startDate queryParams) [] = [] \<or> orElse (qp_endDate queryParams) [] = []"
  shows "resolveRange rt queryParams = None"
  using assms by (auto simp: resolveRange_def getDateRange_def orElse_def)

lemma getExpenses_unresolved:
  assumes "resolveRange rt queryParams = None"
  shows "getExpenses rt user queryParams st r
         = getExpenses rt user (queryParams\<lparr>qp_period := None\<rparr>) st r"
proof -
  have rr: "resolveRange rt (queryParams\<lparr>qp_period := None\<rparr>) = None"
    by (simp add: resolveRange_def orElse_def)
  have f: "filtersOf rt u (queryParams\<lparr>qp_period := None\<rparr>) = filtersOf rt u queryParams" for u
    by (simp add: filtersOf_def assms rr)
  have l: "listingObject es n (queryParams\<lparr>qp_period := None\<rparr>) = listingObject es n queryParams"
    for es n
    by (simp add: listingObject_def)
  show ?thesis
    by (simp add: getExpenses_def f l Let_def split: sum.splits prod.splits)
qed

lemma findWithFilters_online:
  assumes "online st"
  shows "findWithFilters filters st
         = (if orDefault (f_offset filters) 0 < 0 then Inl (ApiError ''Failed to fetch expenses'' 500)
            else Inr (if orDefault (f_limit filters) 20 = 0
                      then drop (nat (orDefault (f_offset filters) 0))
                             (sortNewestFirst (filter (matches (buildQuery filters)) (docs st)))
                      else take (nat \<bar>orDefault (f_limit filters) 20\<bar>)
                             (drop (nat (orDefault (f_offset filters) 0))
                                (sortNewestFirst (filter (matches (buildQuery filters)) (docs st)))),
                      length (filter (matches (buildQuery filters)) (docs st))))"
  using assms
  by (simp add: findWithFilters_def mongo_findPage_def mongo_countDocuments_def wrapAll_def Let_def)

text \<open>
  C8 (amended). For the period "custom", the resolution fails exactly when a bound is
  missing (undefined or empty), or does not parse, or the parsed start is after the
  parsed end; otherwise it gives \<open>setHours(0, 0, 0, 0)\<close> of the start and
  \<open>setHours(23, 59, 59, 999)\<close> of the end: the first and the last millisecond of the
  local day, read back as instants (in a zone of fixed offset, the day of 86400000 ms
  that holds the instant). With period "custom" and a bound missing, \<open>getExpenses\<close>
  proceeds with no date filter: the filter carries no date bound, and the request
  behaves in every respect as the same request with no period. It does not throw for a
  valid user and a reachable store when the skip \<open>(page - 1) * limit\<close> is not negative:
  unless the cache holds an entry for the request, the result is the page asked for of
  all expenses of the user (of the category asked for, if any). When the skip is
  negative the read of the Repository fails and \<open>getExpenses\<close> throws "Failed to fetch
  expenses" (500).
\<close>

theorem custom_range_resolution:
  assumes "qp_period queryParams = Some ''custom''"
    and "orElse (qp_startDate queryParams) [] = [] \<or> orElse (qp_endDate queryParams) [] = []"
  shows "getDateRange rt (Some ''custom'') s e =
           (if s = None \<or> s = Some [] \<or> e = None \<or> e = Some [] then None
            else (case (rt_parse rt (the s), rt_parse rt (the e)) of
                    (Some x, Some y) \<Rightarrow>
                       if y < x then None else Some (startOfDay rt x, endOfDay rt y)
                  | _ \<Rightarrow> None))
       \<and> (\<exists>l. l mod msPerDay = 0 \<and> l \<le> localTime rt t \<and> localTime rt t < l + msPerDay
              \<and> startOfDay rt t = utcTime rt l \<and> endOfDay rt t = utcTime rt (l + (msPerDay - 1)))
       \<and> ((\<forall>l. rt_offsetAt rt l = c \<and> rt_offsetOfLocal rt l = c) \<longrightarrow>
              startOfDay rt t \<le> t \<and> t < startOfDay rt t + msPerDay
            \<and> (startOfDay rt t + c) mod msPerDay = 0
            \<and> endOfDay rt t = startOfDay rt t + msPerDay - 1)
       \<and> resolveRange rt queryParams = None
       \<and> f_startDate (filtersOf rt u queryParams) = None
       \<and> f_endDate (filtersOf rt u queryParams) = None
       \<and> getExpenses rt user queryParams st r
           = getExpenses rt user (queryParams\<lparr>qp_period := None\<rparr>) st r
       \<and> (isValid user \<and> online st
            \<and> 0 \<le> orDefault (f_offset (filtersOf rt (map toLowerHex user) queryParams)) 0 \<longrightarrow>
             (\<exists>v. fst (getExpenses rt user queryParams st r) = Inr v)
           \<and> (\<not> truthy (getCachedExpenses
                          (getExpensesCacheKey user (filtersOf rt (map toLowerHex user) queryParams)) r) \<longrightarrow>
                fst (getExpenses rt user queryParams st r)
                  = Inr (listingObject
                           (if orDefault (f_limit (filtersOf rt (map toLowerHex user) queryParams)) 20 = 0
                            then drop (nat (orDefault (f_offset (filtersOf rt (map toLowerHex user) queryParams)) 0))
                                   (sortNewestFirst
                                      (filter (matches \<lparr>q_userId = map toLowerHex user, q_gte = None,
                                                        q_lte = None,
                                                        q_cat = truthyString (qp_category queryParams)\<rparr>)
                                         (docs st)))
                            else take (nat \<bar>orDefault (f_limit (filtersOf rt (map toLowerHex user) queryParams)) 20\<bar>)
                                   (drop (nat (orDefault (f_offset (filtersOf rt (map toLowerHex user) queryParams)) 0))
                                      (sortNewestFirst
                                         (filter (matches \<lparr>q_userId = map toLowerHex user, q_gte = None,
                                                           q_lte = None,
                                                           q_cat = truthyString (qp_category queryParams)\<rparr>)
                                            (docs st)))))
                           (length (filter (matches \<lparr>q_userId = map toLowerHex user, q_gte = None,
                                                     q_lte = None,
                                                     q_cat = truthyString (qp_category queryParams)\<rparr>)
                                      (docs st)))
                           queryParams)))
       \<and> (isValid user \<and> online st
            \<and> orDefault (f_offset (filtersOf rt (map toLowerHex user) queryParams)) 0 < 0
            \<and> \<not> truthy (getCachedExpenses
                          (getExpensesCacheKey user (filtersOf rt (map toLowerHex user) queryParams)) r) \<longrightarrow>
             fst (getExpenses rt user queryParams st r)
               = Inl (ApiError ''Failed to fetch expenses'' 500))"
proof -
  let ?u = "map toLowerHex user"
  let ?f = "filtersOf rt ?u queryParams"
  let ?q = "\<lparr>q_userId = ?u, q_gte = None, q_lte = None, q_cat = truthyString (qp_category queryParams)\<rparr>"
  let ?skip = "orDefault (f_offset ?f) 0"
  let ?lmt = "orDefault (f_limit ?f) 20"
  let ?sorted = "sortNewestFirst (filter (matches ?q) (docs st))"
  let ?page = "if ?lmt = 0 then drop (nat ?skip) ?sorted else take (nat \<bar>?lmt\<bar>) (drop (nat ?skip) ?sorted)"
  let ?cached = "getCachedExpenses (getExpensesCacheKey user ?f) r"
  have rr: "resolveRange rt queryParams = None"
    using assms by (rule custom_unresolved)
  have fs: "f_startDate (filtersOf rt u queryParams) = None"
           "f_endDate (filtersOf rt u queryParams) = None"
    by (simp_all add: filtersOf_def rr Let_def)
  have bq: "buildQuery ?f = ?q"
    by (simp add: buildQuery_def filtersOf_def rr Let_def)
  have same: "getExpenses rt user queryParams st r
              = getExpenses rt user (queryParams\<lparr>qp_period := None\<rparr>) st r"
    using rr by (rule getExpenses_unresolved)
  have ok: "findWithFilters ?f st = Inr (?page, length (filter (matches ?q) (docs st)))"
    if "online st" and "0 \<le> ?skip"
    using findWithFilters_online[OF that(1), of ?f] that(2) unfolding bq by simp
  have bad: "findWithFilters ?f st = Inl (ApiError ''Failed to fetch expenses'' 500)"
    if "online st" and "?skip < 0"
    using findWithFilters_online[OF that(1), of ?f] that(2) by simp
  have hit: "fst (getExpenses rt user queryParams st r) = Inr ?cached"
    if "isValid user" and "truthy ?cached"
    using that by (simp add: getExpenses_def newObjectId_def Let_def)
  have miss: "fst (getExpenses rt user queryParams st r)
              = Inr (listingObject ?page (length (filter (matches ?q) (docs st))) queryParams)"
    if "isValid user" and "online st" and "0 \<le> ?skip" and "\<not> truthy ?cached"
    using that(1,4) ok[OF that(2,3)] by (simp add: getExpenses_def newObjectId_def Let_def)
  have ex: "\<exists>v. fst (getExpenses rt user queryParams st r) = Inr v"
    if "isValid user" and "online st" and "0 \<le> ?skip"
    using hit[OF that(1)] miss[OF that] by (cases "truthy ?cached") auto
  have fail: "fst (getExpenses rt user queryParams st r) = Inl (ApiError ''Failed to fetch expenses'' 500)"
    if "isValid user" and "online st" and "?skip < 0" and "\<not> truthy ?cached"
    using that(1,4) bad[OF that(2,3)]
    by (simp add: getExpenses_def newObjectId_def Let_def rethrowApi_def)
  have c1: "getDateRange rt (Some ''custom'') s e =
           (if s = None \<or> s = Some [] \<or> e = None \<or> e = Some [] then None
            else (case (rt_parse rt (the s), rt_parse rt (the e)) of
                    (Some x, Some y) \<Rightarrow>
                       if y < x then None else Some (startOfDay rt x, endOfDay rt y)
                  | _ \<Rightarrow> None))"
    by (rule getDateRange_custom)
  have c2: "\<exists>l. l mod msPerDay = 0 \<and> l \<le> localTime rt t \<and> localTime rt t < l + msPerDay
              \<and> startOfDay rt t = utcTime rt l \<and> endOfDay rt t = utcTime rt (l + (msPerDay - 1))"
    by (rule day_of_local)
  have c3: "(\<forall>l. rt_offsetAt rt l = c \<and> rt_offsetOfLocal rt l = c) \<longrightarrow>
              startOfDay rt t \<le> t \<and> t < startOfDay rt t + msPerDay
            \<and> (startOfDay rt t + c) mod msPerDay = 0
            \<and> endOfDay rt t = startOfDay rt t + msPerDay - 1"
    using day_fixed_offset[of rt c t] by blast
  have c7: "isValid user \<and> online st \<and> 0 \<le> ?skip \<longrightarrow>
             (\<exists>v. fst (getExpenses rt user queryParams st r) = Inr v)
           \<and> (\<not> truthy ?cached \<longrightarrow>
                fst (getExpenses rt user queryParams st r)
                  = Inr (listingObject ?page (length (filter (matches ?q) (docs st))) queryParams))"
    using ex miss by blast
  have c8: "isValid user \<and> online st \<and> ?skip < 0 \<and> \<not> truthy ?cached \<longrightarrow>
             fst (getExpenses rt user queryParams st r)
               = Inl (ApiError ''Failed to fetch expenses'' 500)"
    using fail by blast
  show ?thesis
    by (intro conjI c1 c2 c3 rr fs same c7 c8)
qed


text \<open>
  The claim as stated fails in its last part: with period "custom", no bound and page
  "0", for a valid user, a reachable store and an empty cache, the skip is \<open>-20\<close>, the
  database rejects it, and \<open>getExpenses\<close> throws.
\<close>

theorem custom_range_counterexample:
  "isValid userA \<and> online threeStore
   \<and> qp_period (customNoBounds\<lparr>qp_page := Some ''0''\<rparr>) = Some ''custom''
   \<and> qp_startDate (customNoBounds\<lparr>qp_page := Some ''0''\<rparr>) = None
   \<and> qp_endDate (customNoBounds\<lparr>qp_page := Some ''0''\<rparr>) = None
   \<and> f_offset (filtersOf rt0 (map toLowerHex userA) (customNoBounds\<lparr>qp_page := Some ''0''\<rparr>))
       = Some (Num (- 20))
   \<and> fst (getExpenses rt0 userA (customNoBounds\<lparr>qp_page := Some ''0''\<rparr>) threeStore emptyCache)
       = Inl (ApiError ''Failed to fetch expenses'' 500)"
proof -
  let ?qp = "customNoBounds\<lparr>qp_page := Some ''0''\<rparr>"
  have on: "online threeStore" by (simp add: threeStore_def)
  have f: "filtersOf rt0 (map toLowerHex userA) ?qp
           = \<lparr>f_userId = ''aaaaaaaaaaaaaaaaaaaaaaaa'', f_startDate = None, f_endDate = None,
              f_category = None, f_limit = Some (Num 20), f_offset = Some (Num (- 20))\<rparr>"
    by (simp add: filtersOf_def customNoBounds_def noParams_def orElse_def parseInt_0 parseInt_20
        jsSub_def jsMul_def roundInt_small resolveRange_def getDateRange_def userA_def toLowerHex_def
        Let_def)
  have miss: "\<not> truthy (getCachedExpenses k emptyCache)" for k
    by (simp add: getCachedExpenses_def getJson_def redis_get_def emptyCache_def)
  have fw: "findWithFilters (filtersOf rt0 (map toLowerHex userA) ?qp) threeStore
            = Inl (ApiError ''Failed to fetch expenses'' 500)"
    unfolding f using findWithFilters_online[OF on] by (simp add: orDefault_def)
  have g: "fst (getExpenses rt0 userA ?qp threeStore emptyCache)
           = Inl (ApiError ''Failed to fetch expenses'' 500)"
    using userA_valid miss fw
    by (simp add: getExpenses_def newObjectId_def Let_def rethrowApi_def)
  have q: "qp_period ?qp = Some ''custom''" "qp_startDate ?qp = None" "qp_endDate ?qp = None"
    by (simp_all add: customNoBounds_def noParams_def)
  have o: "f_offset (filtersOf rt0 (map toLowerHex userA) ?qp) = Some (Num (- 20))"
    by (simp add: f)
  show ?thesis by (intro conjI userA_valid on q o g)
qed

theorem custom_range_resolution_witness:
  "qp_period (customNoBounds\<lparr>qp_page := Some ''2'', qp_limit := Some ''1''\<rparr>) = Some ''custom''
   \<and> orElse (qp_startDate (customNoBounds\<lparr>qp_page := Some ''2'', qp_limit := Some ''1''\<rparr>)) [] = []
   \<and> qp_period (customNoBounds\<lparr>qp_page := Some ''-3''\<rparr>) = Some ''custom''
   \<and> orElse (qp_startDate (customNoBounds\<lparr>qp_page := Some ''-3''\<rparr>)) [] = []
   \<and> isValid userA \<and> online threeStore
   \<and> getDateRange rt0 (Some ''custom'') (Some ''2024-01-31'') (Some ''2024-01-01'') = None
   \<and> getDateRange rt0 (Some ''custom'') (Some ''2024-01-01'') (Some ''tomorrow'') = None
   \<and> getDateRange rt0 (Some ''custom'') (Some ''2024-01-01'') None = None
   \<and> getDateRange rt0 (Some ''custom'') (Some ''2024-01-01'') (Some ''2024-01-31'')
       = Some (1704067200000, 1706745599999)
   \<and> startOfDay rt0 1706659200000 \<le> 1706659200000
   \<and> endOfDay rt0 1706659200000 = startOfDay rt0 1706659200000 + msPerDay - 1
   \<and> getExpenses rt0 userA (customNoBounds\<lparr>qp_page := Some ''2'', qp_limit := Some ''1''\<rparr>)
         threeStore emptyCache
       = getExpenses rt0 userA (noParams\<lparr>qp_page := Some ''2'', qp_limit := Some ''1''\<rparr>)
           threeStore emptyCache
   \<and> fst (getExpenses rt0 userA (customNoBounds\<lparr>qp_page := Some ''2'', qp_limit := Some ''1''\<rparr>)
            threeStore emptyCache)
       = Inr (listingObject [docs threeStore ! 2] 3
                (customNoBounds\<lparr>qp_page := Some ''2'', qp_limit := Some ''1''\<rparr>))
   \<and> fst (getExpenses rt0 userA (customNoBounds\<lparr>qp_page := Some ''-3''\<rparr>) threeStore emptyCache)
       = Inl (ApiError ''Failed to fetch expenses'' 500)"
proof -
  let ?qp = "customNoBounds\<lparr>qp_page := Some ''2'', qp_limit := Some ''1''\<rparr>"
  let ?qn = "customNoBounds\<lparr>qp_page := Some ''-3''\<rparr>"
  have v: "isValid userA" by (simp add: userA_def isValid_def isHexDigit_def)
  have on: "online threeStore" by (simp add: threeStore_def)
  have p: "qp_period ?qp = Some ''custom''" and pn: "qp_period ?qn = Some ''custom''"
    by (simp_all add: customNoBounds_def noParams_def)
  have m: "orElse (qp_startDate ?qp) [] = []" and mn: "orElse (qp_startDate ?qn) [] = []"
    by (simp_all add: customNoBounds_def noParams_def orElse_def)
  note inst = custom_range_resolution[OF p disjI1[OF m], where rt = rt0 and r = emptyCache
      and user = userA and st = threeStore and u = "map toLowerHex userA" and c = 0
      and t = 1706659200000]
  note instn = custom_range_resolution[OF pn disjI1[OF mn], where rt = rt0 and r = emptyCache
      and user = userA and st = threeStore and u = "map toLowerHex userA" and c = 0
      and t = 1706659200000 and s = None and e = None]
  have d1: "getDateRange rt0 (Some ''custom'') (Some ''2024-01-31'') (Some ''2024-01-01'') = None"
    using inst[where s = "Some ''2024-01-31''" and e = "Some ''2024-01-01''"]
    by (simp add: rt0_def)
  have d2: "getDateRange rt0 (Some ''custom'') (Some ''2024-01-01'') (Some ''tomorrow'') = None"
    using inst[where s = "Some ''2024-01-01''" and e = "Some ''tomorrow''"]
    by (simp add: rt0_def)
  have d3: "getDateRange rt0 (Some ''custom'') (Some ''2024-01-01'') None = None"
    using inst[where s = "Some ''2024-01-01''" and e = None]
    by simp
  have d4: "getDateRange rt0 (Some ''custom'') (Some ''2024-01-01'') (Some ''2024-01-31'')
       = Some (1704067200000, 1706745599999)"
    using inst[where s = "Some ''2024-01-01''" and e = "Some ''2024-01-31''"]
    by (simp add: rt0_def startOfDay_def endOfDay_def utcTime_def localTime_def msPerDay_def)
  have fixed: "\<forall>l. rt_offsetAt rt0 l = 0 \<and> rt_offsetOfLocal rt0 l = 0"
    by (simp add: rt0_def)
  have day: "startOfDay rt0 1706659200000 \<le> 1706659200000"
            "endOfDay rt0 1706659200000 = startOfDay rt0 1706659200000 + msPerDay - 1"
    using inst[where s = None and e = None] fixed by blast+
  have np: "?qp\<lparr>qp_period := None\<rparr> = noParams\<lparr>qp_page := Some ''2'', qp_limit := Some ''1''\<rparr>"
    by (simp add: customNoBounds_def noParams_def)
  have same: "getExpenses rt0 userA ?qp threeStore emptyCache
       = getExpenses rt0 userA (noParams\<lparr>qp_page := Some ''2'', qp_limit := Some ''1''\<rparr>)
           threeStore emptyCache"
    using inst[where s = None and e = None] unfolding np by blast
  have f: "filtersOf rt0 (map toLowerHex userA) ?qp
           = \<lparr>f_userId = ''aaaaaaaaaaaaaaaaaaaaaaaa'', f_startDate = None, f_endDate = None,
              f_category = None, f_limit = Some (Num 1), f_offset = Some (Num 1)\<rparr>"
    by (simp add: filtersOf_def customNoBounds_def noParams_def orElse_def parseInt_1 parseInt_2
        jsSub_def jsMul_def roundInt_small resolveRange_def getDateRange_def userA_def toLowerHex_def
        Let_def)
  have fn: "filtersOf rt0 (map toLowerHex userA) ?qn
           = \<lparr>f_userId = ''aaaaaaaaaaaaaaaaaaaaaaaa'', f_startDate = None, f_endDate = None,
              f_category = None, f_limit = Some (Num 20), f_offset = Some (Num (- 80))\<rparr>"
    by (simp add: filtersOf_def customNoBounds_def noParams_def orElse_def parseInt_minus3 parseInt_20
        jsSub_def jsMul_def roundInt_small resolveRange_def getDateRange_def userA_def toLowerHex_def
        Let_def)
  have miss: "\<not> truthy (getCachedExpenses k emptyCache)" for k
    by (simp add: getCachedExpenses_def getJson_def redis_get_def emptyCache_def)
  have sk: "0 \<le> orDefault (f_offset (filtersOf rt0 (map toLowerHex userA) ?qp)) 0"
    by (simp add: f orDefault_def)
  have skn: "orDefault (f_offset (filtersOf rt0 (map toLowerHex userA) ?qn)) 0 < 0"
    by (simp add: fn orDefault_def)
  have cat: "qp_category ?qp = None"
    by (simp add: customNoBounds_def noParams_def)
  have pagev: "take (nat \<bar>1\<bar>) (drop (nat 1) (sortNewestFirst
                 (filter (matches \<lparr>q_userId = map toLowerHex userA, q_gte = None, q_lte = None,
                                   q_cat = truthyString None\<rparr>) (docs threeStore))))
               = [docs threeStore ! 2]"
    by (simp add: threeStore_def matches_def userA_def toLowerHex_def truthyString_def
        sortNewestFirst_def)
  have cnt: "length (filter (matches \<lparr>q_userId = map toLowerHex userA, q_gte = None, q_lte = None,
                                   q_cat = truthyString None\<rparr>) (docs threeStore)) = 3"
    by (simp add: threeStore_def matches_def userA_def toLowerHex_def truthyString_def)
  have lm: "orDefault (f_limit (filtersOf rt0 (map toLowerHex userA) ?qp)) 20 = 1"
           "orDefault (f_offset (filtersOf rt0 (map toLowerHex userA) ?qp)) 0 = 1"
    by (simp_all add: f orDefault_def)
  have "fst (getExpenses rt0 userA ?qp threeStore emptyCache)
        = Inr (listingObject
                 (if orDefault (f_limit (filtersOf rt0 (map toLowerHex userA) ?qp)) 20 = 0
                  then drop (nat (orDefault (f_offset (filtersOf rt0 (map toLowerHex userA) ?qp)) 0))
                         (sortNewestFirst
                            (filter (matches \<lparr>q_userId = map toLowerHex userA, q_gte = None,
                                              q_lte = None, q_cat = truthyString (qp_category ?qp)\<rparr>)
                               (docs threeStore)))
                  else take (nat \<bar>orDefault (f_limit (filtersOf rt0 (map toLowerHex userA) ?qp)) 20\<bar>)
                         (drop (nat (orDefault (f_offset (filtersOf rt0 (map toLowerHex userA) ?qp)) 0))
                            (sortNewestFirst
                               (filter (matches \<lparr>q_userId = map toLowerHex userA, q_gte = None,
                                                 q_lte = None, q_cat = truthyString (qp_category ?qp)\<rparr>)
                                  (docs threeStore)))))
                 (length (filter (matches \<lparr>q_userId = map toLowerHex userA, q_gte = None,
                                           q_lte = None, q_cat = truthyString (qp_category ?qp)\<rparr>)
                            (docs threeStore)))
                 ?qp)"
    using inst[where s = None and e = None] v on sk miss by blast
  then have g: "fst (getExpenses rt0 userA ?qp threeStore emptyCache)
       = Inr (listingObject [docs threeStore ! 2] 3 ?qp)"
    unfolding lm cat by (simp only: pagev cnt) simp
  have gn: "fst (getExpenses rt0 userA ?qn threeStore emptyCache)
       = Inl (ApiError ''Failed to fetch expenses'' 500)"
    using instn v on skn miss by blast
  show ?thesis by (intro conjI p m pn mn v on d1 d2 d3 d4 day same g gn)
qed

section \<open>Outcomes of create\<close>

lemma find_snoc_fresh: "find P xs = None \<Longrightarrow> P x \<Longrightarrow> find P (xs @ [x]) = Some x"
  by (induction xs) auto

text \<open>
  C9 (amended). \<open>create\<close> fails with the client error 400 "Invalid user ID" when the
  user identifier is not a valid ObjectId, and the store is not touched. For a valid user
  identifier it fails with the server error 500 "Failed to create expense" when the insert
  reports no inserted identifier, and with the server error 500 "Failed to retrieve
  created expense" when the read-back finds nothing; otherwise it returns the document
  the read-back found. On a reachable collection and a fresh identifier, that document is
  the inserted one, with \<open>createdAt\<close> and \<open>updatedAt\<close> both equal to "now".
\<close>

theorem create_outcomes:
  "(\<not> isValid user \<longrightarrow>
      create coll now user expenseData st = (Inl (ApiError ''Invalid user ID'' 400), st))
 \<and> (isValid user
      \<and> insertOne coll (expenseDocOf (map toLowerHex user) now expenseData) st = (Inr None, st') \<longrightarrow>
      create coll now user expenseData st = (Inl (ApiError ''Failed to create expense'' 500), st'))
 \<and> (isValid user
      \<and> insertOne coll (expenseDocOf (map toLowerHex user) now expenseData) st = (Inr (Some i), st')
      \<and> findById coll i st' = Inr None \<longrightarrow>
      create coll now user expenseData st = (Inl (ApiError ''Failed to retrieve created expense'' 500), st'))
 \<and> (isValid user
      \<and> insertOne coll (expenseDocOf (map toLowerHex user) now expenseData) st = (Inr (Some i), st')
      \<and> findById coll i st' = Inr (Some e) \<longrightarrow>
      create coll now user expenseData st = (Inr e, st'))
 \<and> (isValid user \<and> online s \<and> isValid newId \<and> map toLowerHex newId = newId
      \<and> newId \<notin> set (map oid (docs s)) \<longrightarrow>
      create (memoryCollection newId) now user expenseData s
        = (Inr (withId newId (expenseDocOf (map toLowerHex user) now expenseData)),
           s\<lparr>docs := docs s @ [withId newId (expenseDocOf (map toLowerHex user) now expenseData)]\<rparr>)
      \<and> createdAt (withId newId (expenseDocOf (map toLowerHex user) now expenseData)) = now
      \<and> updatedAt (withId newId (expenseDocOf (map toLowerHex user) now expenseData)) = now)"
proof (intro conjI impI)
  assume "\<not> isValid user"
  then show "create coll now user expenseData st = (Inl (ApiError ''Invalid user ID'' 400), st)"
    by (simp add: create_def rethrowApi_def)
next
  assume "isValid user \<and> insertOne coll (expenseDocOf (map toLowerHex user) now expenseData) st = (Inr None, st')"
  then show "create coll now user expenseData st = (Inl (ApiError ''Failed to create expense'' 500), st')"
    by (simp add: create_def rethrowApi_def newObjectId_def)
next
  assume "isValid user
      \<and> insertOne coll (expenseDocOf (map toLowerHex user) now expenseData) st = (Inr (Some i), st')
      \<and> findById coll i st' = Inr None"
  then show "create coll now user expenseData st = (Inl (ApiError ''Failed to retrieve created expense'' 500), st')"
    by (simp add: create_def rethrowApi_def newObjectId_def)
next
  assume "isValid user
      \<and> insertOne coll (expenseDocOf (map toLowerHex user) now expenseData) st = (Inr (Some i), st')
      \<and> findById coll i st' = Inr (Some e)"
  then show "create coll now user expenseData st = (Inr e, st')"
    by (simp add: create_def rethrowApi_def newObjectId_def)
next
  assume a: "isValid user \<and> online s \<and> isValid newId \<and> map toLowerHex newId = newId
      \<and> newId \<notin> set (map oid (docs s))"
  let ?e = "withId newId (expenseDocOf (map toLowerHex user) now expenseData)"
  have "find (\<lambda>e. oid e = newId) (docs s) = None"
    using a by (auto simp: find_None_iff_not)
  then have "find (\<lambda>e. oid e = newId) (docs s @ [?e]) = Some ?e"
    by (rule find_snoc_fresh) (simp add: withId_def)
  then show "create (memoryCollection newId) now user expenseData s
        = (Inr ?e, s\<lparr>docs := docs s @ [?e]\<rparr>)"
    using a
    by (simp add: create_def rethrowApi_def newObjectId_def memoryCollection_def mongo_insertOne_def
        findById_def mongo_findOne_def wrapAll_def Let_def)
next
  show "createdAt (withId newId (expenseDocOf (map toLowerHex user) now expenseData)) = now"
    by (simp add: withId_def expenseDocOf_def)
next
  show "updatedAt (withId newId (expenseDocOf (map toLowerHex user) now expenseData)) = now"
    by (simp add: withId_def expenseDocOf_def)
qed

theorem create_outcomes_witness:
  "\<not> isValid ''not-an-id''
   \<and> create (memoryCollection ''65a000000000000000000002'') 7000 ''not-an-id'' coffee storeA
       = (Inl (ApiError ''Invalid user ID'' 400), storeA)
   \<and> isValid userA
   \<and> create noIdCollection 7000 userA coffee storeA
       = (Inl (ApiError ''Failed to create expense'' 500), storeA)
   \<and> fst (create (lostCollection ''65a000000000000000000002'') 7000 userA coffee storeA)
       = Inl (ApiError ''Failed to retrieve created expense'' 500)
   \<and> create (memoryCollection ''65a000000000000000000002'') 7000 userA coffee storeA
       = (Inr \<lparr>oid = ''65a000000000000000000002'', userId = ''aaaaaaaaaaaaaaaaaaaaaaaa'',
                title = ''Coffee'', description = None, amount = 100, category = ''Groceries'',
                createdAt = 7000, updatedAt = 7000\<rparr>,
          \<lparr>docs = [exA,
                   \<lparr>oid = ''65a000000000000000000002'', userId = ''aaaaaaaaaaaaaaaaaaaaaaaa'',
                    title = ''Coffee'', description = None, amount = 100, category = ''Groceries'',
                    createdAt = 7000, updatedAt = 7000\<rparr>],
           online = True\<rparr>)"
proof -
  let ?nid = "''65a000000000000000000002''"
  let ?doc = "expenseDocOf (map toLowerHex userA) 7000 coffee"
  have bad: "\<not> isValid ''not-an-id''" by (simp add: isValid_def)
  have v: "isValid userA" by (simp add: userA_def isValid_def isHexDigit_def)
  have vn: "isValid ?nid" by (simp add: isValid_def isHexDigit_def)
  have c1: "create (memoryCollection ?nid) 7000 ''not-an-id'' coffee storeA
       = (Inl (ApiError ''Invalid user ID'' 400), storeA)"
    using create_outcomes[where user = "''not-an-id''" and coll = "memoryCollection ?nid"
        and now = 7000 and expenseData = coffee and st = storeA and st' = storeA
        and i = ?nid and e = exA and s = storeA and newId = ?nid] bad
    by simp
  have ins0: "insertOne noIdCollection ?doc storeA = (Inr None, storeA)"
    by (simp add: noIdCollection_def)
  have c2: "create noIdCollection 7000 userA coffee storeA
       = (Inl (ApiError ''Failed to create expense'' 500), storeA)"
    using create_outcomes[where user = userA and coll = noIdCollection
        and now = 7000 and expenseData = coffee and st = storeA and st' = storeA
        and i = ?nid and e = exA and s = storeA and newId = ?nid] v ins0
    by simp
  let ?st' = "storeA\<lparr>docs := docs storeA @ [withId ?nid ?doc]\<rparr>"
  have ins1: "insertOne (lostCollection ?nid) ?doc storeA = (Inr (Some ?nid), ?st')"
    by (simp add: lostCollection_def mongo_insertOne_def storeA_def exA_def)
  have rb: "findById (lostCollection ?nid) ?nid ?st' = Inr None"
    using vn by (simp add: findById_def lostCollection_def newObjectId_def wrapAll_def)
  have "create (lostCollection ?nid) 7000 userA coffee storeA
       = (Inl (ApiError ''Failed to retrieve created expense'' 500), ?st')"
    using create_outcomes[where user = userA and coll = "lostCollection ?nid"
        and now = 7000 and expenseData = coffee and st = storeA and st' = ?st' and i = ?nid
        and e = exA and s = storeA and newId = ?nid] v ins1 rb
    by simp
  then have c3: "fst (create (lostCollection ?nid) 7000 userA coffee storeA)
       = Inl (ApiError ''Failed to retrieve created expense'' 500)"
    by simp
  have pre: "online storeA \<and> map toLowerHex ?nid = ?nid \<and> ?nid \<notin> set (map oid (docs storeA))"
    by (simp add: storeA_def exA_def toLowerHex_def)
  have "create (memoryCollection ?nid) 7000 userA coffee storeA = (Inr (withId ?nid ?doc), ?st')"
    using create_outcomes[where user = userA and s = storeA and newId = ?nid
        and now = 7000 and expenseData = coffee and coll = noIdCollection and st = storeA
        and st' = storeA and i = ?nid and e = exA] v vn pre
    by simp
  then have c4: "create (memoryCollection ''65a000000000000000000002'') 7000 userA coffee storeA
       = (Inr \<lparr>oid = ''65a000000000000000000002'', userId = ''aaaaaaaaaaaaaaaaaaaaaaaa'',
                title = ''Coffee'', description = None, amount = 100, category = ''Groceries'',
                createdAt = 7000, updatedAt = 7000\<rparr>,
          \<lparr>docs = [exA,
                   \<lparr>oid = ''65a000000000000000000002'', userId = ''aaaaaaaaaaaaaaaaaaaaaaaa'',
                    title = ''Coffee'', description = None, amount = 100, category = ''Groceries'',
                    createdAt = 7000, updatedAt = 7000\<rparr>],
           online = True\<rparr>)"
    by (simp add: withId_def expenseDocOf_def coffee_def userA_def toLowerHex_def storeA_def)
  show ?thesis by (intro conjI bad c1 v c2 c3 c4)
qed

text \<open>The claim as stated fails: for a malformed user identifier the failure is the
  client error 400, not a server-class one.\<close>

theorem create_invalid_user_counterexample:
  "create (memoryCollection ''65a000000000000000000002'') 7000 ''not-an-id'' coffee storeA
   = (Inl (ApiError ''Invalid user ID'' 400), storeA)"
  by (simp add: create_def isValid_def rethrowApi_def)

section \<open>A malformed caller identifier on the read path\<close>

text \<open>
  C10. For every user identifier that is not a valid ObjectId, whatever the query
  parameters, the store and the cache, \<open>getExpenses\<close> throws the server error 500
  "Failed to get expenses" (the exception of the ObjectId constructor, wrapped by the
  catch block) and leaves the cache as it was.
\<close>

theorem getExpenses_malformed_user:
  assumes "\<not> isValid user"
  shows "getExpenses rt user queryParams st r = (Inl (ApiError ''Failed to get expenses'' 500), r)"
  using assms by (simp add: getExpenses_def newObjectId_def rethrowApi_def)

theorem getExpenses_malformed_user_witness:
  "\<not> isValid ''not-an-id''
   \<and> getExpenses rt0 ''not-an-id'' noParams threeStore emptyCache
       = (Inl (ApiError ''Failed to get expenses'' 500), emptyCache)"
  using getExpenses_malformed_user[of "''not-an-id''" rt0 noParams threeStore emptyCache]
  by (simp add: isValid_def)

end
